theory Spec2Isabelle
  imports Complex_Main "HOL-Library.Char_ord" "HOL-Library.List_Lexorder"
begin

section \<open>JavaScript values used by the loaders\<close>

text \<open>
  A JavaScript number is NaN, one of the two infinities, or a finite value. Finite
  values are modelled as reals with exact arithmetic: rounding, overflow to infinity and
  the sign of zero are not modelled (the zero produced by \<open>max - min\<close> is taken as +0,
  which is what IEEE subtraction of equal finite values gives).
\<close>

datatype jsnum = NaN | PInf | NInf | Fin real

datatype error = Error string | TypeError

definition isNaN :: "jsnum \<Rightarrow> bool" where
  "isNaN v = (v = NaN)"

text \<open>Strict equality \<open>===\<close> on numbers: NaN is different from everything.\<close>

definition js_eq :: "jsnum \<Rightarrow> jsnum \<Rightarrow> bool" where
  "js_eq a b = (a \<noteq> NaN \<and> b \<noteq> NaN \<and> a = b)"

fun js_gt :: "jsnum \<Rightarrow> jsnum \<Rightarrow> bool" where
  "js_gt NaN b = False"
| "js_gt a NaN = False"
| "js_gt a PInf = False"
| "js_gt PInf b = True"
| "js_gt NInf b = False"
| "js_gt (Fin x) NInf = True"
| "js_gt (Fin x) (Fin y) = (y < x)"

fun js_sub :: "jsnum \<Rightarrow> jsnum \<Rightarrow> jsnum" where
  "js_sub NaN b = NaN"
| "js_sub a NaN = NaN"
| "js_sub PInf PInf = NaN"
| "js_sub NInf NInf = NaN"
| "js_sub PInf b = PInf"
| "js_sub NInf b = NInf"
| "js_sub (Fin x) PInf = NInf"
| "js_sub (Fin x) NInf = PInf"
| "js_sub (Fin x) (Fin y) = Fin (x - y)"

fun js_neg :: "jsnum \<Rightarrow> jsnum" where
  "js_neg NaN = NaN"
| "js_neg PInf = NInf"
| "js_neg NInf = PInf"
| "js_neg (Fin x) = Fin (- x)"

fun js_div :: "jsnum \<Rightarrow> jsnum \<Rightarrow> jsnum" where
  "js_div NaN b = NaN"
| "js_div a NaN = NaN"
| "js_div (Fin x) (Fin y) =
     (if y = 0 then (if x = 0 then NaN else if 0 < x then PInf else NInf)
      else Fin (x / y))"
| "js_div (Fin x) b = Fin 0"
| "js_div a (Fin y) = (if y < 0 then js_neg a else a)"
| "js_div a b = NaN"

text \<open>\<open>Math.min(...xs)\<close> and \<open>Math.max(...xs)\<close>: NaN as soon as one argument is NaN,
  \<open>Infinity\<close> and \<open>-Infinity\<close> on no argument.\<close>

definition js_min2 :: "jsnum \<Rightarrow> jsnum \<Rightarrow> jsnum" where
  "js_min2 a b = (if a = NaN \<or> b = NaN then NaN else if js_gt a b then b else a)"

definition js_max2 :: "jsnum \<Rightarrow> jsnum \<Rightarrow> jsnum" where
  "js_max2 a b = (if a = NaN \<or> b = NaN then NaN else if js_gt b a then b else a)"

definition Math_min :: "jsnum list \<Rightarrow> jsnum" where
  "Math_min xs = foldr js_min2 xs PInf"

definition Math_max :: "jsnum list \<Rightarrow> jsnum" where
  "Math_max xs = foldr js_max2 xs NInf"

text \<open>Reading an array: an index outside the array gives \<open>undefined\<close>.\<close>

definition js_at :: "'a list \<Rightarrow> int \<Rightarrow> 'a option" where
  "js_at xs i = (if 0 \<le> i \<and> nat i < length xs then Some (xs ! nat i) else None)"

fun indexOf_from :: "'a list \<Rightarrow> 'a \<Rightarrow> int \<Rightarrow> int" where
  "indexOf_from [] v i = - 1"
| "indexOf_from (x # xs) v i = (if x = v then i else indexOf_from xs v (i + 1))"

definition indexOf :: "'a list \<Rightarrow> 'a \<Rightarrow> int" where
  "indexOf xs v = indexOf_from xs v 0"

text \<open>\<open>Array.prototype.slice(start, end)\<close>, negative indices counting from the end.\<close>

definition js_slice :: "'a list \<Rightarrow> int \<Rightarrow> int \<Rightarrow> 'a list" where
  "js_slice xs start fin =
     (let len = int (length xs);
          k = (if start < 0 then max (len + start) 0 else min start len);
          e = (if fin < 0 then max (len + fin) 0 else min fin len)
      in take (nat (e - k)) (drop (nat k) xs))"

definition js_slice_from :: "'a list \<Rightarrow> int \<Rightarrow> 'a list" where
  "js_slice_from xs start = js_slice xs start (int (length xs))"

text \<open>Strings are byte lists. \<open>trim\<close> removes the ASCII white space and line
  terminators at both ends (the non-ASCII white space of ECMAScript is not modelled).\<close>

definition js_space :: "char \<Rightarrow> bool" where
  "js_space c = (c \<in> set [CHR 0x09, CHR 0x0A, CHR 0x0B, CHR 0x0C, CHR 0x0D, CHR 0x20])"

definition js_trim :: "string \<Rightarrow> string" where
  "js_trim s = rev (dropWhile js_space (rev (dropWhile js_space s)))"

fun js_split :: "char \<Rightarrow> string \<Rightarrow> string list" where
  "js_split c [] = [[]]"
| "js_split c (x # xs) =
     (if x = c then [] # js_split c xs
      else (case js_split c xs of [] \<Rightarrow> [[x]] | y # ys \<Rightarrow> (x # y) # ys))"

text \<open>Sequential loops whose body can throw: the first error ends the loop.\<close>

fun mapE :: "('a \<Rightarrow> error + 'b) \<Rightarrow> 'a list \<Rightarrow> error + 'b list" where
  "mapE f [] = Inr []"
| "mapE f (x # xs) =
     (case f x of Inl e \<Rightarrow> Inl e
      | Inr y \<Rightarrow> (case mapE f xs of Inl e \<Rightarrow> Inl e | Inr ys \<Rightarrow> Inr (y # ys)))"

fun foldE :: "('a \<Rightarrow> 'b \<Rightarrow> error + 'b) \<Rightarrow> 'a list \<Rightarrow> 'b \<Rightarrow> error + 'b" where
  "foldE f [] s = Inr s"
| "foldE f (x # xs) s = (case f x s of Inl e \<Rightarrow> Inl e | Inr s' \<Rightarrow> foldE f xs s')"

section \<open>DataLoader (data-loader.js)\<close>

text \<open>A matrix cell \<open>{open, close}\<close> (the fields are written \<open>Open\<close> and \<open>Close\<close>, as
  in the second loader, since \<open>open\<close> is a constant of HOL); a parsed row
  \<open>{date, symbol, open, close}\<close>; the fields of the loader object, \<open>this.min\<close> and
  \<open>this.max\<close> being \<open>min_stats\<close> and \<open>max_stats\<close>.\<close>

record quote =
  Open :: jsnum
  Close :: jsnum

record row =
  r_date :: string
  r_symbol :: string
  r_open :: jsnum
  r_close :: jsnum

record loader =
  symbols :: "string list"
  symbolIndex :: "string \<rightharpoonup> nat"
  dates :: "string list"
  dataMatrix :: "quote list list"
  min_stats :: "string \<rightharpoonup> quote"
  max_stats :: "string \<rightharpoonup> quote"
  ready :: bool

text \<open>The object after the constructor (\<open>dataMatrix\<close> is \<open>null\<close> there; reading a
  row of it throws a TypeError, as reading a row of the empty matrix does here).\<close>

definition new_DataLoader :: loader where
  "new_DataLoader = \<lparr>symbols = [], symbolIndex = Map.empty, dates = [], dataMatrix = [],
     min_stats = Map.empty, max_stats = Map.empty, ready = False\<rparr>"

text \<open>\<open>_scale(val, min, max)\<close>.\<close>

definition scale :: "jsnum \<Rightarrow> jsnum \<Rightarrow> jsnum \<Rightarrow> jsnum" where
  "scale val mn mx =
     (if isNaN val then Fin (1/2)
      else if js_eq mx mn then Fin (1/2)
      else js_div (js_sub val mn) (js_sub mx mn))"

text \<open>
  \<open>_normalize()\<close>. \<open>openArrs[s]\<close> collects the opens of column \<open>s\<close> over all days.
  A day with more cells than symbols throws in the \<open>forEach\<close>
  (\<open>openArrs[sIdx]\<close> is undefined), a day with fewer throws in the rescaling loop, so
  the function returns exactly on the matrices whose rows have \<open>symbolN\<close> cells.
  \<open>this.min[this.symbols[i]]\<close> is assigned for \<open>i = 0, 1, ...\<close> in turn.
\<close>

definition openArrs :: "quote list list \<Rightarrow> nat \<Rightarrow> jsnum list" where
  "openArrs m s = map (\<lambda>day. Open (day ! s)) m"

definition closeArrs :: "quote list list \<Rightarrow> nat \<Rightarrow> jsnum list" where
  "closeArrs m s = map (\<lambda>day. Close (day ! s)) m"

definition calc_min :: "string list \<Rightarrow> quote list list \<Rightarrow> string \<rightharpoonup> quote" where
  "calc_min syms m =
     fold (\<lambda>i f. f(syms ! i \<mapsto> \<lparr>Open = Math_min (openArrs m i), Close = Math_min (closeArrs m i)\<rparr>))
       [0..<length syms] Map.empty"

definition calc_max :: "string list \<Rightarrow> quote list list \<Rightarrow> string \<rightharpoonup> quote" where
  "calc_max syms m =
     fold (\<lambda>i f. f(syms ! i \<mapsto> \<lparr>Open = Math_max (openArrs m i), Close = Math_max (closeArrs m i)\<rparr>))
       [0..<length syms] Map.empty"

definition scale_cell :: "(string \<rightharpoonup> quote) \<Rightarrow> (string \<rightharpoonup> quote) \<Rightarrow> string \<Rightarrow> quote \<Rightarrow> quote" where
  "scale_cell mn mx sy c =
     \<lparr>Open = scale (Open c) (Open (the (mn sy))) (Open (the (mx sy))),
      Close = scale (Close c) (Close (the (mn sy))) (Close (the (mx sy)))\<rparr>"

definition normalize_matrix :: "loader \<Rightarrow> error + loader" where
  "normalize_matrix this =
     (let symbolN = length (symbols this); m = dataMatrix this
      in if list_ex (\<lambda>day. length day \<noteq> symbolN) m then Inl TypeError
         else
           let mn = calc_min (symbols this) m; mx = calc_max (symbols this) m
           in Inr (this\<lparr>min_stats := mn, max_stats := mx,
                 dataMatrix := map (\<lambda>day. map (\<lambda>s. scale_cell mn mx (symbols this ! s) (day ! s))
                                              [0..<symbolN]) m\<rparr>))"

text \<open>
  \<open>loadCSV(file)\<close>, from the text of the file. \<open>Number\<close> on a string is a parameter
  (ECMAScript's numeric-literal grammar is not part of the repository);
  \<open>Number(undefined)\<close> is NaN.
\<close>

definition required_columns :: "string list" where
  "required_columns = [''Date'', ''Symbol'', ''Open'', ''Close'']"

definition Number_of :: "(string \<Rightarrow> jsnum) \<Rightarrow> string option \<Rightarrow> jsnum" where
  "Number_of num v = (case v of None \<Rightarrow> NaN | Some s \<Rightarrow> num s)"

definition csv_rows :: "string \<Rightarrow> string list list" where
  "csv_rows csvText = map (js_split CHR '','') (js_split CHR 0x0A (js_trim csvText))"

definition falsy :: "string option \<Rightarrow> bool" where
  "falsy v = (v = None \<or> v = Some [])"

definition parse_rows :: "(string \<Rightarrow> jsnum) \<Rightarrow> int \<Rightarrow> int \<Rightarrow> int \<Rightarrow> int \<Rightarrow> string list list \<Rightarrow> row list" where
  "parse_rows num dateIdx symbolIdx openIdx closeIdx rs =
     concat (map (\<lambda>r. if falsy (js_at r dateIdx) \<or> falsy (js_at r symbolIdx) then []
                      else [\<lparr>r_date = the (js_at r dateIdx), r_symbol = the (js_at r symbolIdx),
                             r_open = Number_of num (js_at r openIdx),
                             r_close = Number_of num (js_at r closeIdx)\<rparr>]) rs)"

text \<open>The pivot loop body: \<open>this.dataMatrix[dIdx][sIdx] = {open, close}\<close>. A date that
  is not on the axis gives \<open>dIdx = -1\<close> and a TypeError; a symbol without index would
  set a property that is no array element.\<close>

definition pivot_step :: "string list \<Rightarrow> (string \<rightharpoonup> nat) \<Rightarrow> row \<Rightarrow> quote list list \<Rightarrow> error + quote list list" where
  "pivot_step ds sidx r m =
     (let dIdx = indexOf ds (r_date r)
      in if dIdx < 0 \<or> length m \<le> nat dIdx then Inl TypeError
         else (case sidx (r_symbol r) of
                 None \<Rightarrow> Inr m
               | Some sIdx \<Rightarrow>
                   Inr (m[nat dIdx := (m ! nat dIdx)[sIdx := \<lparr>Open = r_open r, Close = r_close r\<rparr>]])))"

text \<open>The stages of \<open>loadCSV\<close>: the \<open>data\<close> array after the parsing loop, the two
  sorted axes, the symbol index, and the pivot loop over the matrix filled with NaN.\<close>

definition csv_data :: "(string \<Rightarrow> jsnum) \<Rightarrow> string \<Rightarrow> row list" where
  "csv_data num csvText =
     (let rows = csv_rows csvText; headers = hd rows
      in parse_rows num (indexOf headers ''Date'') (indexOf headers ''Symbol'')
           (indexOf headers ''Open'') (indexOf headers ''Close'') (tl rows))"

definition data_symbols :: "row list \<Rightarrow> string list" where
  "data_symbols data = sort (remdups (map r_symbol data))"

definition data_dates :: "row list \<Rightarrow> string list" where
  "data_dates data = sort (remdups (map r_date data))"

definition index_map :: "string list \<Rightarrow> string \<rightharpoonup> nat" where
  "index_map syms = map_of (zip syms [0..<length syms])"

definition pivot_matrix :: "row list \<Rightarrow> error + quote list list" where
  "pivot_matrix data =
     foldE (pivot_step (data_dates data) (index_map (data_symbols data))) data
       (replicate (length (data_dates data))
          (replicate (length (data_symbols data)) \<lparr>Open = NaN, Close = NaN\<rparr>))"

definition loadCSV :: "(string \<Rightarrow> jsnum) \<Rightarrow> string \<Rightarrow> loader \<Rightarrow> error + loader" where
  "loadCSV num csvText this =
     (if \<not> list_all (\<lambda>h. h \<in> set (hd (csv_rows csvText))) required_columns
      then Inl (Error ''CSV columns missing. Required: Date,Symbol,Open,Close'')
      else
        let data = csv_data num csvText
        in (case pivot_matrix data of
              Inl e \<Rightarrow> Inl e
            | Inr m \<Rightarrow>
                (case normalize_matrix (this\<lparr>symbols := data_symbols data,
                                            symbolIndex := index_map (data_symbols data),
                                            dates := data_dates data, dataMatrix := m\<rparr>) of
                   Inl e \<Rightarrow> Inl e
                 | Inr this' \<Rightarrow> Inr (this'\<lparr>ready := True\<rparr>))))"

text \<open>
  \<open>buildDataset(windowLen, ahead, testSplit)\<close>. Reading \<open>this.dataMatrix[w][s]\<close>
  outside the matrix throws a TypeError. The window length and the horizon are natural
  numbers; the loop \<open>for (d = windowLen; d < datesLen - ahead; d++)\<close> runs over
  \<open>[windowLen..<datesLen - ahead]\<close>, which is empty when \<open>datesLen - ahead\<close> is
  negative in the source and 0 here. Labels are the numbers 0 and 1.
  \<open>tf.tensor\<close> belongs to the tensor library: a tensor is modelled by the nested array
  it is built from.
\<close>

record 's dataset =
  X_train :: "jsnum list list list"
  y_train :: "nat list list"
  X_test :: "jsnum list list list"
  y_test :: "nat list list"
  symbolNames :: "'s list"

definition getCell :: "quote list list \<Rightarrow> int \<Rightarrow> nat \<Rightarrow> error + quote" where
  "getCell m w s =
     (if 0 \<le> w \<and> nat w < length m \<and> s < length (m ! nat w) then Inr (m ! nat w ! s)
      else Inl TypeError)"

definition dayVec :: "quote list list \<Rightarrow> nat \<Rightarrow> nat \<Rightarrow> error + jsnum list" where
  "dayVec m symbolN w =
     (case mapE (\<lambda>s. case getCell m (int w) s of Inl e \<Rightarrow> Inl e
                                               | Inr c \<Rightarrow> Inr [Open c, Close c]) [0..<symbolN] of
        Inl e \<Rightarrow> Inl e
      | Inr vs \<Rightarrow> Inr (concat vs))"

definition xSeq :: "quote list list \<Rightarrow> nat \<Rightarrow> nat \<Rightarrow> nat \<Rightarrow> error + jsnum list list" where
  "xSeq m symbolN windowLen d = mapE (dayVec m symbolN) [d - windowLen..<d]"

definition label_symbol :: "quote list list \<Rightarrow> nat \<Rightarrow> nat \<Rightarrow> nat \<Rightarrow> error + nat list" where
  "label_symbol m ahead d s =
     (case getCell m (int d - 1) s of
        Inl e \<Rightarrow> Inl e
      | Inr cd \<Rightarrow>
          mapE (\<lambda>t. case getCell m (int d - 1 + int t) s of
                        Inl e \<Rightarrow> Inl e
                      | Inr cf \<Rightarrow> Inr (if js_gt (Close cf) (Close cd) then 1 else 0))
               [1..<ahead + 1])"

definition label :: "quote list list \<Rightarrow> nat \<Rightarrow> nat \<Rightarrow> nat \<Rightarrow> error + nat list" where
  "label m symbolN ahead d =
     (case mapE (label_symbol m ahead d) [0..<symbolN] of
        Inl e \<Rightarrow> Inl e
      | Inr ls \<Rightarrow> Inr (concat ls))"

definition sample :: "quote list list \<Rightarrow> nat \<Rightarrow> nat \<Rightarrow> nat \<Rightarrow> nat \<Rightarrow> error + jsnum list list \<times> nat list" where
  "sample m symbolN windowLen ahead d =
     (case xSeq m symbolN windowLen d of
        Inl e \<Rightarrow> Inl e
      | Inr x \<Rightarrow> (case label m symbolN ahead d of Inl e \<Rightarrow> Inl e | Inr l \<Rightarrow> Inr (x, l)))"

definition samples :: "loader \<Rightarrow> nat \<Rightarrow> nat \<Rightarrow> error + (jsnum list list \<times> nat list) list" where
  "samples this windowLen ahead =
     mapE (sample (dataMatrix this) (length (symbols this)) windowLen ahead)
          [windowLen..<length (dates this) - ahead]"

definition buildDataset :: "loader \<Rightarrow> nat \<Rightarrow> nat \<Rightarrow> real \<Rightarrow> error + string dataset" where
  "buildDataset this windowLen ahead testSplit =
     (if \<not> ready this then Inl (Error ''Data not loaded'')
      else (case samples this windowLen ahead of
              Inl e \<Rightarrow> Inl e
            | Inr xy \<Rightarrow>
                let X = map fst xy; y = map snd xy;
                    total = length X;
                    splitIdx = \<lfloor>real total * (1 - testSplit)\<rfloor>
                in Inr \<lparr>X_train = js_slice X 0 splitIdx, y_train = js_slice y 0 splitIdx,
                        X_test = js_slice_from X splitIdx, y_test = js_slice_from y splitIdx,
                        symbolNames = symbols this\<rparr>))"

text \<open>
  \<open>GRUModel.accuracyByStock\<close>: the counting loops for stock \<open>s\<close> over the predictions
  \<open>y_pred\<close> and the labels \<open>y_true\<close> (the network's \<open>predict\<close> is outside the
  repository, so the predictions are an argument). An entry outside a row is
  \<open>undefined\<close>, which is neither \<open>>= 0.5\<close> nor equal to 0 or 1; a missing row of
  \<open>y_true\<close> throws.
\<close>

definition js_ge_half :: "jsnum option \<Rightarrow> bool" where
  "js_ge_half v = (case v of None \<Rightarrow> False | Some x \<Rightarrow> js_gt x (Fin (1/2)) \<or> js_eq x (Fin (1/2)))"

definition js_gt_half :: "jsnum option \<Rightarrow> bool" where
  "js_gt_half v = (case v of None \<Rightarrow> False | Some x \<Rightarrow> js_gt x (Fin (1/2)))"

definition accuracyByStock_hits :: "jsnum list list \<Rightarrow> nat list list \<Rightarrow> nat \<Rightarrow> error + bool list" where
  "accuracyByStock_hits y_pred y_true s =
     (let nSteps = 3
      in case mapE (\<lambda>i. if length y_true \<le> i then Inl TypeError
                         else Inr (map (\<lambda>t. let idx = s * nSteps + t;
                                                 gt = js_at (y_true ! i) (int idx);
                                                 pr = (if js_ge_half (js_at (y_pred ! i) (int idx)) then 1 else 0)
                                             in gt = Some pr) [0..<nSteps]))
                   [0..<length y_pred] of
           Inl e \<Rightarrow> Inl e
         | Inr hs \<Rightarrow> Inr (concat hs))"

text \<open>\<open>correct\<close> and \<open>total\<close> for stock \<open>s\<close>, and \<open>acc: correct/total\<close>.\<close>

definition accuracyByStock_acc :: "jsnum list list \<Rightarrow> nat list list \<Rightarrow> nat \<Rightarrow> error + jsnum" where
  "accuracyByStock_acc y_pred y_true s =
     (case accuracyByStock_hits y_pred y_true s of
        Inl e \<Rightarrow> Inl e
      | Inr hs \<Rightarrow> Inr (js_div (Fin (real (length (filter id hs)))) (Fin (real (length hs)))))"

section \<open>StockDataLoader and GRUStockPredictor (the second loader and its model)\<close>

text \<open>
  A parsed line is an object from header to field; a field the line does not have is
  \<open>undefined\<close>. So a symbol or a date is a string or \<open>undefined\<close>
  (\<open>None\<close>). Used as a property name, \<open>undefined\<close> is the string "undefined".
  An object used as a dictionary is a map from property names; the properties inherited
  from \<open>Object.prototype\<close> are not modelled.
  \<open>parseFloat\<close> on a string is a parameter; \<open>parseFloat(undefined)\<close> is NaN.
\<close>

type_synonym entry = "string \<rightharpoonup> string"

definition key :: "string option \<Rightarrow> string" where
  "key v = (case v of None \<Rightarrow> ''undefined'' | Some s \<Rightarrow> s)"

definition parseFloat_of :: "(string \<Rightarrow> jsnum) \<Rightarrow> string option \<Rightarrow> jsnum" where
  "parseFloat_of pf v = (case v of None \<Rightarrow> NaN | Some s \<Rightarrow> pf s)"

definition js_nth :: "'a option list \<Rightarrow> nat \<Rightarrow> 'a option" where
  "js_nth xs i = (if i < length xs then xs ! i else None)"

text \<open>\<open>parseCSV\<close>, up to \<open>this.rawData\<close>.\<close>

definition rawData_of :: "string \<Rightarrow> entry list" where
  "rawData_of csvText =
     (let lines = js_split CHR 0x0A (js_trim csvText);
          headers = map js_trim (js_split CHR '','' (hd lines))
      in map (\<lambda>line. let values = map js_trim (js_split CHR '','' line)
                      in fold (\<lambda>(header, idx) entry. entry(header := js_at values (int idx)))
                              (zip headers [0..<length headers]) Map.empty)
             (tl lines))"

text \<open>\<open>[...new Set(xs)].sort()\<close>: first occurrences, then the default sort, which
  compares strings and puts \<open>undefined\<close> last.\<close>

definition js_set :: "'a list \<Rightarrow> 'a list" where
  "js_set xs = rev (remdups (rev xs))"

definition js_sort :: "string option list \<Rightarrow> string option list" where
  "js_sort xs = map Some (sort (concat (map (\<lambda>x. case x of None \<Rightarrow> [] | Some s \<Rightarrow> [s]) xs)))
                @ filter (\<lambda>x. x = None) xs"

text \<open>The pivot of \<open>prepareData\<close>: \<open>rawData.find\<close> returns the first matching
  record.\<close>

definition pivot_cells :: "(string \<Rightarrow> jsnum) \<Rightarrow> entry list \<Rightarrow> string option list \<Rightarrow> string option \<Rightarrow> string \<rightharpoonup> quote" where
  "pivot_cells pf rawData syms date =
     fold (\<lambda>symbol cells.
             case find (\<lambda>d. d ''Date'' = date \<and> d ''Symbol'' = symbol) rawData of
               None \<Rightarrow> cells
             | Some rcd \<Rightarrow> cells(key symbol \<mapsto> \<lparr>Open = parseFloat_of pf (rcd ''Open''),
                                                  Close = parseFloat_of pf (rcd ''Close'')\<rparr>))
          syms Map.empty"

definition pivot :: "(string \<Rightarrow> jsnum) \<Rightarrow> entry list \<Rightarrow> string option list \<Rightarrow> string option list \<Rightarrow> string \<rightharpoonup> (string \<rightharpoonup> quote)" where
  "pivot pf rawData syms ds =
     fold (\<lambda>date p. p(key date \<mapsto> pivot_cells pf rawData syms date)) ds Map.empty"

text \<open>\<open>pivoted[d]?.[symbol]\<close>.\<close>

definition lookup2 :: "(string \<rightharpoonup> (string \<rightharpoonup> quote)) \<Rightarrow> string option \<Rightarrow> string option \<Rightarrow> quote option" where
  "lookup2 p d symbol = (case p (key d) of None \<Rightarrow> None | Some cells \<Rightarrow> cells (key symbol))"

text \<open>\<open>normalizeData(pivoted)\<close>. \<open>filter(Boolean)\<close> keeps the truthy values:
  it drops \<open>undefined\<close>, NaN and 0.\<close>

record stats =
  openMin :: jsnum
  openMax :: jsnum
  closeMin :: jsnum
  closeMax :: jsnum

definition truthy :: "jsnum option \<Rightarrow> bool" where
  "truthy v = (case v of None \<Rightarrow> False | Some x \<Rightarrow> x \<noteq> NaN \<and> x \<noteq> Fin 0)"

definition filter_Boolean :: "jsnum option list \<Rightarrow> jsnum list" where
  "filter_Boolean vs = map the (filter truthy vs)"

definition stockStats :: "string option list \<Rightarrow> string option list \<Rightarrow> (string \<rightharpoonup> (string \<rightharpoonup> quote)) \<Rightarrow> string \<rightharpoonup> stats" where
  "stockStats syms ds pivoted =
     fold (\<lambda>symbol st.
             let opens = filter_Boolean (map (\<lambda>d. map_option Open (lookup2 pivoted d symbol)) ds);
                 closes = filter_Boolean (map (\<lambda>d. map_option Close (lookup2 pivoted d symbol)) ds)
             in if 0 < length opens \<and> 0 < length closes
                then st(key symbol \<mapsto> \<lparr>openMin = Math_min opens, openMax = Math_max opens,
                                         closeMin = Math_min closes, closeMax = Math_max closes\<rparr>)
                else st)
          syms Map.empty"

definition normalizeData :: "string option list \<Rightarrow> string option list \<Rightarrow> (string \<rightharpoonup> (string \<rightharpoonup> quote)) \<Rightarrow> string \<rightharpoonup> (string \<rightharpoonup> quote)" where
  "normalizeData syms ds pivoted =
     (let sts = stockStats syms ds pivoted
      in fold (\<lambda>date nd. nd(key date \<mapsto>
                 fold (\<lambda>symbol cells.
                         case (lookup2 pivoted date symbol, sts (key symbol)) of
                           (Some data, Some stats) \<Rightarrow>
                             cells(key symbol \<mapsto>
                               \<lparr>Open = js_div (js_sub (Open data) (openMin stats))
                                              (js_sub (openMax stats) (openMin stats)),
                                Close = js_div (js_sub (Close data) (closeMin stats))
                                               (js_sub (closeMax stats) (closeMin stats))\<rparr>)
                         | _ \<Rightarrow> cells)
                      syms Map.empty))
              ds Map.empty)"

text \<open>\<open>createSequences()\<close>, with its constants \<open>sequenceLength = 12\<close> and
  \<open>predictionHorizon = 3\<close>.\<close>

definition sequenceLength :: nat where
  "sequenceLength = 12"

definition predictionHorizon :: nat where
  "predictionHorizon = 3"

definition featureVector :: "(string \<rightharpoonup> (string \<rightharpoonup> quote)) \<Rightarrow> string option list \<Rightarrow> string option \<Rightarrow> jsnum list" where
  "featureVector nd syms date =
     concat (map (\<lambda>symbol. case lookup2 nd date symbol of
                              Some stockData \<Rightarrow> [Open stockData, Close stockData]
                            | None \<Rightarrow> [Fin 0, Fin 0]) syms)"

definition sequence :: "(string \<rightharpoonup> (string \<rightharpoonup> quote)) \<Rightarrow> string option list \<Rightarrow> string option list \<Rightarrow> nat \<Rightarrow> jsnum list list" where
  "sequence nd syms ds i = map (\<lambda>j. featureVector nd syms (js_nth ds (i + j))) [0..<sequenceLength]"

text \<open>\<open>v || 0\<close> on a number or \<open>undefined\<close>.\<close>

definition or_zero :: "jsnum option \<Rightarrow> jsnum" where
  "or_zero v = (if truthy v then the v else Fin 0)"

definition currentClosePrices :: "(string \<rightharpoonup> (string \<rightharpoonup> quote)) \<Rightarrow> string option list \<Rightarrow> string option \<Rightarrow> string \<rightharpoonup> jsnum" where
  "currentClosePrices nd syms currentDate =
     fold (\<lambda>symbol m. m(key symbol \<mapsto> or_zero (map_option Close (lookup2 nd currentDate symbol))))
          syms Map.empty"

definition target_entry :: "(string \<rightharpoonup> (string \<rightharpoonup> quote)) \<Rightarrow> (string \<rightharpoonup> jsnum) \<Rightarrow> string option \<Rightarrow> string option \<Rightarrow> nat" where
  "target_entry nd ccp futureDate symbol =
     (let futureClose = map_option Close (lookup2 nd futureDate symbol);
          currentClose = ccp (key symbol)
      in if futureClose \<noteq> None \<and> currentClose \<noteq> None
         then (if js_gt (the futureClose) (the currentClose) then 1 else 0)
         else 0)"

definition target :: "(string \<rightharpoonup> (string \<rightharpoonup> quote)) \<Rightarrow> string option list \<Rightarrow> string option list \<Rightarrow> nat \<Rightarrow> nat list" where
  "target nd syms ds i =
     (let currentDate = js_nth ds (i + sequenceLength - 1);
          ccp = currentClosePrices nd syms currentDate
      in concat (map (\<lambda>offset. let futureDate = js_nth ds (i + sequenceLength - 1 + offset)
                                in map (target_entry nd ccp futureDate) syms)
                     [1..<predictionHorizon + 1]))"

definition createSequences :: "(string \<rightharpoonup> (string \<rightharpoonup> quote)) \<Rightarrow> string option list \<Rightarrow> string option list \<Rightarrow> jsnum list list list \<times> nat list list" where
  "createSequences nd syms ds =
     (let is = [0..<length ds - sequenceLength - predictionHorizon]
      in (map (sequence nd syms ds) is, map (target nd syms ds) is))"

text \<open>\<open>splitData()\<close> with \<open>trainTestSplit = 0.8\<close>; the tensor slices are the first
  \<open>splitIndex\<close> samples and the rest.\<close>

definition splitData :: "'s list \<Rightarrow> jsnum list list list \<times> nat list list \<Rightarrow> 's dataset" where
  "splitData syms Xy =
     (let splitIndex = nat \<lfloor>real (length (fst Xy)) * (8/10)\<rfloor>
      in \<lparr>X_train = take splitIndex (fst Xy), y_train = take splitIndex (snd Xy),
          X_test = drop splitIndex (fst Xy), y_test = drop splitIndex (snd Xy),
          symbolNames = syms\<rparr>)"

text \<open>\<open>prepareData()\<close> and \<open>parseCSV(csvText)\<close>, followed by \<open>getData()\<close>.\<close>

definition symbols_of :: "entry list \<Rightarrow> string option list" where
  "symbols_of rawData = js_sort (js_set (map (\<lambda>d. d ''Symbol'') rawData))"

definition dates_of :: "entry list \<Rightarrow> string option list" where
  "dates_of rawData = js_sort (js_set (map (\<lambda>d. d ''Date'') rawData))"

definition normalizedData_of :: "(string \<Rightarrow> jsnum) \<Rightarrow> entry list \<Rightarrow> string \<rightharpoonup> (string \<rightharpoonup> quote)" where
  "normalizedData_of pf rawData =
     normalizeData (symbols_of rawData) (dates_of rawData)
       (pivot pf rawData (symbols_of rawData) (dates_of rawData))"

definition prepareData :: "(string \<Rightarrow> jsnum) \<Rightarrow> entry list \<Rightarrow> string option dataset" where
  "prepareData pf rawData =
     splitData (symbols_of rawData)
       (createSequences (normalizedData_of pf rawData) (symbols_of rawData) (dates_of rawData))"

definition parseCSV :: "(string \<Rightarrow> jsnum) \<Rightarrow> string \<Rightarrow> string option dataset" where
  "parseCSV pf csvText = prepareData pf (rawData_of csvText)"

text \<open>
  \<open>GRUStockPredictor.calculateStockAccuracies\<close>: the counting loops for the stock at
  \<open>stockIdx\<close>, one truth value per (sample, day) pair in loop order, then
  \<open>correct / total\<close> (0 when there is no pair).
\<close>

definition calculateStockAccuracies_hits :: "jsnum list list \<Rightarrow> nat list list \<Rightarrow> nat \<Rightarrow> nat \<Rightarrow> error + bool list" where
  "calculateStockAccuracies_hits predArray trueArray stocksCount stockIdx =
     (let daysAhead = 3
      in case mapE (\<lambda>sampleIdx. if length trueArray \<le> sampleIdx then Inl TypeError
                         else Inr (map (\<lambda>day. let predIdx = stockIdx + day * stocksCount;
                                                   prediction = (if js_gt_half (js_at (predArray ! sampleIdx) (int predIdx)) then 1 else 0);
                                                   trueVal = js_at (trueArray ! sampleIdx) (int predIdx)
                                               in Some prediction = trueVal) [0..<daysAhead]))
                   [0..<length predArray] of
           Inl e \<Rightarrow> Inl e
         | Inr hs \<Rightarrow> Inr (concat hs))"

definition calculateStockAccuracies_acc :: "jsnum list list \<Rightarrow> nat list list \<Rightarrow> nat \<Rightarrow> nat \<Rightarrow> error + real" where
  "calculateStockAccuracies_acc predArray trueArray stocksCount stockIdx =
     (case calculateStockAccuracies_hits predArray trueArray stocksCount stockIdx of
        Inl e \<Rightarrow> Inl e
      | Inr hs \<Rightarrow> Inr (if 0 < length hs then real (length (filter id hs)) / real (length hs) else 0))"

section \<open>Shapes and closed forms used in the proofs\<close>

text \<open>A matrix of \<open>dn\<close> rows with \<open>sn\<close> cells each; one row of a window and one
  label vector of \<open>buildDataset\<close>, read off a matrix of that shape.\<close>

definition wf_matrix :: "quote list list \<Rightarrow> nat \<Rightarrow> nat \<Rightarrow> bool" where
  "wf_matrix m dn sn = (length m = dn \<and> list_all (\<lambda>day. length day = sn) m)"

definition window_row :: "quote list list \<Rightarrow> nat \<Rightarrow> nat \<Rightarrow> jsnum list" where
  "window_row m sn w = concat (map (\<lambda>s. [Open (m ! w ! s), Close (m ! w ! s)]) [0..<sn])"

definition label_of :: "quote list list \<Rightarrow> nat \<Rightarrow> nat \<Rightarrow> nat \<Rightarrow> nat list" where
  "label_of m sn ahead d =
     concat (map (\<lambda>s. map (\<lambda>t. if js_gt (Close (m ! (d - 1 + t) ! s)) (Close (m ! (d - 1) ! s))
                                 then 1 else 0) [1..<ahead + 1]) [0..<sn])"

section \<open>Concrete inputs\<close>

text \<open>
  On a non-empty string of decimal digits \<open>Number\<close> and \<open>parseFloat\<close> both give
  the number it denotes; \<open>decimal\<close> is that function, and NaN elsewhere. The concrete
  files below have only such strings in their Open and Close fields.
  \<open>csv\<close> joins lines with the newline character.
\<close>

definition is_digit :: "char \<Rightarrow> bool" where
  "is_digit c = (48 \<le> (of_char c :: nat) \<and> (of_char c :: nat) \<le> 57)"

definition decimal :: "string \<Rightarrow> jsnum" where
  "decimal s =
     (if s \<noteq> [] \<and> list_all is_digit s
      then Fin (real (fold (\<lambda>c n. 10 * n + ((of_char c :: nat) - 48)) s 0))
      else NaN)"

fun csv :: "string list \<Rightarrow> string" where
  "csv [] = []"
| "csv [l] = l"
| "csv (l # ls) = l @ [CHR 0x0A] @ csv ls"

definition csv20 :: string where
  "csv20 = csv
    [''Date,Symbol,Open,Close'',
     ''d01,A,17,15'',
     ''d01,B,8,9'',
     ''d02,A,11,20'',
     ''d02,B,11,13'',
     ''d03,A,18,14'',
     ''d03,B,7,8'',
     ''d04,A,12,19'',
     ''d04,B,10,12'',
     ''d05,A,19,13'',
     ''d05,B,6,7'',
     ''d06,A,13,18'',
     ''d06,B,9,11'',
     ''d07,A,20,12'',
     ''d07,B,5,6'',
     ''d08,A,14,17'',
     ''d08,B,8,10'',
     ''d09,A,21,11'',
     ''d09,B,11,5'',
     ''d10,A,15,16'',
     ''d10,B,7,9'',
     ''d11,A,22,10'',
     ''d11,B,10,13'',
     ''d12,A,16,15'',
     ''d12,B,6,8'',
     ''d13,A,10,20'',
     ''d13,B,9,12'',
     ''d14,A,17,14'',
     ''d14,B,5,7'',
     ''d15,A,11,19'',
     ''d15,B,8,11'',
     ''d16,A,18,13'',
     ''d16,B,11,6'',
     ''d17,A,12,18'',
     ''d17,B,7,10'',
     ''d18,A,19,12'',
     ''d18,B,10,5'',
     ''d19,A,13,17'',
     ''d19,B,6,9'',
     ''d20,A,20,11'',
     ''d20,B,9,13'']"

definition csv_gap :: string where
  "csv_gap = csv [''Date,Symbol,Open,Close'', ''d1,A,1,2'', ''d2,A,3,4'', ''d1,B,5,6'']"

definition csv_noClose :: string where
  "csv_noClose = csv [''Date,Symbol,Open'', ''d1,A,1'']"

definition csv_noDate :: string where
  "csv_noDate = csv [''Symbol,Open,Close'', ''A,1,2'']"

definition csv_dup :: string where
  "csv_dup = csv [''Date,Symbol,Open,Close'', ''d1,A,1,2'', ''d1,A,3,4'']"

definition same_cell :: "row \<Rightarrow> row \<Rightarrow> bool" where
  "same_cell r x = (r_date x = r_date r \<and> r_symbol x = r_symbol r)"

definition same_entry :: "entry \<Rightarrow> entry \<Rightarrow> bool" where
  "same_entry e x = (x ''Date'' = e ''Date'' \<and> x ''Symbol'' = e ''Symbol'')"

definition norm_cell :: "quote list list \<Rightarrow> nat \<Rightarrow> quote \<Rightarrow> quote" where
  "norm_cell m s c =
     \<lparr>Open = scale (Open c) (Math_min (openArrs m s)) (Math_max (openArrs m s)),
      Close = scale (Close c) (Math_min (closeArrs m s)) (Math_max (closeArrs m s))\<rparr>"

definition csv_zero :: string where
  "csv_zero = csv [''Date,Symbol,Open,Close'', ''d1,A,0,5'', ''d2,A,2,7'']"


definition csv_flat :: string where
  "csv_flat = csv [''Date,Symbol,Open,Close'', ''d1,A,1,7'', ''d2,A,2,7'']"

definition csv_gap3 :: string where
  "csv_gap3 = csv [''Date,Symbol,Open,Close'', ''d1,A,1,2'', ''d2,A,3,4'', ''d3,A,5,6'',
                   ''d1,B,5,6'', ''d3,B,7,8'']"


definition syms2 :: "string option list" where
  "syms2 = [Some ''A'', Some ''B'']"

definition ds16 :: "string option list" where
  "ds16 = map (\<lambda>n. Some [CHR ''d'', char_of (65 + n)]) [0..<16::nat]"

definition nd_demo :: "string \<rightharpoonup> (string \<rightharpoonup> quote)" where
  "nd_demo = (\<lambda>dk. Some (\<lambda>sk.
      if sk = ''A'' then Some \<lparr>Open = Fin (1/2), Close = (if dk \<in> set [''dM'', ''dN'', ''dO''] then Fin 1 else Fin (1/2))\<rparr>
      else if dk = ''dN'' then None
      else Some \<lparr>Open = Fin (1/2), Close = Fin (1/2)\<rparr>))"

definition preds_demo :: "jsnum list list" where
  "preds_demo = [[Fin (9/10), Fin (1/10), Fin (9/10), Fin (1/10), Fin (9/10), Fin (1/10)]]"

definition truth_demo :: "nat list list" where
  "truth_demo = [[1, 1, 1, 1, 1, 1]]"





definition no_record :: "row list \<Rightarrow> string \<Rightarrow> string \<Rightarrow> bool" where
  "no_record data d sy = list_all (\<lambda>r. \<not> (r_date r = d \<and> r_symbol r = sy)) data"

section \<open>The window and label builder of DataLoader on a well-shaped matrix\<close>

lemma mapE_Inr: "(\<And>x. x \<in> set xs \<Longrightarrow> f x = Inr (g x)) \<Longrightarrow> mapE f xs = Inr (map g xs)"
  by (induction xs) auto

lemma wf_matrix_nth: "wf_matrix m dn sn \<Longrightarrow> w < dn \<Longrightarrow> length (m ! w) = sn"
  by (auto simp: wf_matrix_def list_all_iff)

lemma getCell_wf:
  "wf_matrix m dn sn \<Longrightarrow> w < dn \<Longrightarrow> s < sn \<Longrightarrow> getCell m (int w) s = Inr (m ! w ! s)"
  using wf_matrix_nth [of m dn sn w] by (simp add: getCell_def wf_matrix_def)

lemma dayVec_wf:
  assumes "wf_matrix m dn sn" and "w < dn"
  shows "dayVec m sn w = Inr (window_row m sn w)"
proof -
  have "mapE (\<lambda>s. case getCell m (int w) s of Inl e \<Rightarrow> Inl e | Inr c \<Rightarrow> Inr [Open c, Close c]) [0..<sn]
        = Inr (map (\<lambda>s. [Open (m ! w ! s), Close (m ! w ! s)]) [0..<sn])"
    by (rule mapE_Inr) (simp add: getCell_wf [OF assms])
  then show ?thesis by (simp add: dayVec_def window_row_def)
qed

lemma xSeq_wf:
  assumes "wf_matrix m dn sn" and "d \<le> dn"
  shows "xSeq m sn windowLen d = Inr (map (window_row m sn) [d - windowLen..<d])"
  unfolding xSeq_def using assms by (intro mapE_Inr dayVec_wf) auto

lemma label_symbol_wf:
  assumes "wf_matrix m dn sn" and "0 < d" and "d + ahead \<le> dn" and "s < sn"
  shows "label_symbol m ahead d s =
         Inr (map (\<lambda>t. if js_gt (Close (m ! (d - 1 + t) ! s)) (Close (m ! (d - 1) ! s)) then 1 else 0)
                  [1..<ahead + 1])"
proof -
  have d1: "int d - 1 = int (d - 1)" using assms(2) by simp
  have c: "getCell m (int d - 1) s = Inr (m ! (d - 1) ! s)"
    unfolding d1 using assms by (intro getCell_wf [of m dn sn]) auto
  have f: "getCell m (int d - 1 + int t) s = Inr (m ! (d - 1 + t) ! s)" if "t \<in> set [1..<ahead + 1]" for t
  proof -
    have e: "int d - 1 + int t = int (d - 1 + t)" using assms(2) by simp
    have "d - 1 + t < dn" using that assms(2,3) by auto
    then show ?thesis unfolding e by (rule getCell_wf [OF assms(1) _ assms(4)])
  qed
  have "mapE (\<lambda>t. case getCell m (int d - 1 + int t) s of
                        Inl e \<Rightarrow> Inl e
                      | Inr cf \<Rightarrow> Inr (if js_gt (Close cf) (Close (m ! (d - 1) ! s)) then 1 else 0))
               [1..<ahead + 1]
        = Inr (map (\<lambda>t. if js_gt (Close (m ! (d - 1 + t) ! s)) (Close (m ! (d - 1) ! s)) then 1 else 0)
                  [1..<ahead + 1])"
    by (rule mapE_Inr) (simp only: f sum.case)
  then show ?thesis
    unfolding label_symbol_def c by (simp only: sum.case)
qed

lemma label_wf:
  assumes "wf_matrix m dn sn" and "0 < d" and "d + ahead \<le> dn"
  shows "label m sn ahead d = Inr (label_of m sn ahead d)"
proof -
  have "mapE (label_symbol m ahead d) [0..<sn]
        = Inr (map (\<lambda>s. map (\<lambda>t. if js_gt (Close (m ! (d - 1 + t) ! s)) (Close (m ! (d - 1) ! s))
                                 then 1 else 0) [1..<ahead + 1]) [0..<sn])"
    by (rule mapE_Inr) (simp add: label_symbol_wf [OF assms])
  then show ?thesis by (simp add: label_def label_of_def)
qed

lemma sample_wf:
  assumes "wf_matrix m dn sn" and "0 < d" and "d + ahead \<le> dn"
  shows "sample m sn windowLen ahead d =
         Inr (map (window_row m sn) [d - windowLen..<d], label_of m sn ahead d)"
  using assms by (simp add: sample_def xSeq_wf [of m dn sn] label_wf [of m dn sn])

lemma samples_wf:
  assumes "wf_matrix (dataMatrix this) (length (dates this)) (length (symbols this))"
    and "0 < windowLen"
  shows "samples this windowLen ahead =
         Inr (map (\<lambda>d. (map (window_row (dataMatrix this) (length (symbols this))) [d - windowLen..<d],
                        label_of (dataMatrix this) (length (symbols this)) ahead d))
                  [windowLen..<length (dates this) - ahead])"
  unfolding samples_def
  by (rule mapE_Inr, rule sample_wf [OF assms(1)]) (use assms(2) in auto)

lemma length_concat_const:
  "(\<And>x. x \<in> set xss \<Longrightarrow> length x = n) \<Longrightarrow> length (concat xss) = length xss * n"
  by (induction xss) auto

lemma length_window_row: "length (window_row m sn w) = 2 * sn"
  unfolding window_row_def by (subst length_concat_const [where n = 2]) auto

lemma length_label_of: "length (label_of m sn ahead d) = sn * ahead"
  unfolding label_of_def by (subst length_concat_const [where n = ahead]) auto

lemma js_slice_partition: "js_slice xs 0 k @ js_slice_from xs k = xs"
proof -
  have "nat (min k (int (length xs))) \<le> length xs" by auto
  then show ?thesis
    by (auto simp: js_slice_def js_slice_from_def Let_def min_def max_def nat_diff_distrib)
qed

section \<open>What \<open>loadCSV\<close> leaves in the loader\<close>

lemma pivot_step_wf:
  assumes "wf_matrix m dn sn" and "pivot_step ds sidx r m = Inr m'"
  shows "wf_matrix m' dn sn"
proof (cases "sidx (r_symbol r)")
  case None
  with assms show ?thesis by (auto simp: pivot_step_def Let_def split: if_splits)
next
  case (Some sIdx)
  define i where "i = nat (indexOf ds (r_date r))"
  define c where "c = \<lparr>Open = r_open r, Close = r_close r\<rparr>"
  from assms(2) Some have i: "i < length m" and m': "m' = m[i := (m ! i)[sIdx := c]]"
    by (auto simp: pivot_step_def Let_def i_def c_def split: if_splits)
  have "length x = sn" if "x \<in> set m'" for x
  proof -
    from that have "x = (m ! i)[sIdx := c] \<or> x \<in> set m"
      unfolding m' using set_update_subset_insert [of m i] by auto
    moreover have "length (m ! i) = sn"
      using assms(1) i by (auto simp: wf_matrix_def list_all_iff)
    ultimately show ?thesis using assms(1) by (auto simp: wf_matrix_def list_all_iff)
  qed
  then show ?thesis using assms(1) by (simp add: wf_matrix_def list_all_iff m')
qed

lemma foldE_pivot_wf:
  "wf_matrix m dn sn \<Longrightarrow> foldE (pivot_step ds sidx) data m = Inr m' \<Longrightarrow> wf_matrix m' dn sn"
proof (induction data arbitrary: m)
  case Nil
  then show ?case by simp
next
  case (Cons r data)
  then show ?case by (auto split: sum.splits dest: pivot_step_wf)
qed

lemma wf_matrix_replicate: "wf_matrix (replicate dn (replicate sn c)) dn sn"
  by (simp add: wf_matrix_def list_all_iff)

lemma pivot_matrix_wf:
  "pivot_matrix data = Inr m \<Longrightarrow> wf_matrix m (length (data_dates data)) (length (data_symbols data))"
  unfolding pivot_matrix_def by (rule foldE_pivot_wf [OF wf_matrix_replicate])

lemma normalize_matrix_Inr:
  assumes "normalize_matrix this = Inr this'"
  shows "symbols this' = symbols this" and "dates this' = dates this" and "ready this' = ready this"
    and "wf_matrix (dataMatrix this') (length (dataMatrix this)) (length (symbols this))"
    and "wf_matrix (dataMatrix this) (length (dataMatrix this)) (length (symbols this))"
  using assms
  by (auto simp: normalize_matrix_def Let_def wf_matrix_def list_all_iff list_ex_iff split: if_splits)

lemma normalize_matrix_defined:
  assumes "wf_matrix (dataMatrix this) dn (length (symbols this))"
  shows "\<exists>this'. normalize_matrix this = Inr this'"
  using assms by (auto simp: normalize_matrix_def Let_def wf_matrix_def list_all_iff list_ex_iff)

lemma loadCSV_wf:
  assumes "loadCSV num csvText this0 = Inr this"
  shows "ready this"
    and "wf_matrix (dataMatrix this) (length (dates this)) (length (symbols this))"
    and "symbols this = data_symbols (csv_data num csvText)"
    and "dates this = data_dates (csv_data num csvText)"
proof -
  from assms obtain m this' where
    m: "pivot_matrix (csv_data num csvText) = Inr m"
    and n: "normalize_matrix (this0\<lparr>symbols := data_symbols (csv_data num csvText),
              symbolIndex := index_map (data_symbols (csv_data num csvText)),
              dates := data_dates (csv_data num csvText), dataMatrix := m\<rparr>) = Inr this'"
    and t: "this = this'\<lparr>ready := True\<rparr>"
    by (auto simp: loadCSV_def Let_def split: if_splits sum.splits)
  show "ready this" by (simp add: t)
  show "symbols this = data_symbols (csv_data num csvText)"
    using normalize_matrix_Inr(1) [OF n] by (simp add: t)
  show "dates this = data_dates (csv_data num csvText)"
    using normalize_matrix_Inr(2) [OF n] by (simp add: t)
  show "wf_matrix (dataMatrix this) (length (dates this)) (length (symbols this))"
    using normalize_matrix_Inr(1,2,4) [OF n] pivot_matrix_wf [OF m]
    by (simp add: t wf_matrix_def)
qed

section \<open>\<open>loadCSV\<close> returns whenever the header has the required columns\<close>

lemma indexOf_from_mem:
  "v \<in> set xs \<Longrightarrow> i \<le> indexOf_from xs v i \<and> indexOf_from xs v i < i + int (length xs)
      \<and> xs ! nat (indexOf_from xs v i - i) = v"
proof (induction xs arbitrary: i)
  case Nil
  then show ?case by simp
next
  case (Cons x xs)
  show ?case
  proof (cases "x = v")
    case True
    then show ?thesis by simp
  next
    case False
    with Cons.prems have "v \<in> set xs" by simp
    from Cons.IH [OF this, of "i + 1"] have ih: "i + 1 \<le> indexOf_from xs v (i + 1)"
      "indexOf_from xs v (i + 1) < i + 1 + int (length xs)"
      "xs ! nat (indexOf_from xs v (i + 1) - (i + 1)) = v" by auto
    have "nat (indexOf_from xs v (i + 1) - i) = Suc (nat (indexOf_from xs v (i + 1) - (i + 1)))"
      using ih(1) by linarith
    with ih False show ?thesis by simp
  qed
qed

lemma indexOf_mem:
  assumes "v \<in> set xs"
  shows "0 \<le> indexOf xs v" and "nat (indexOf xs v) < length xs" and "xs ! nat (indexOf xs v) = v"
  using indexOf_from_mem [OF assms, of 0] by (auto simp: indexOf_def)

lemma pivot_step_defined:
  assumes "length m = length ds" and "r_date r \<in> set ds"
  shows "\<exists>m'. pivot_step ds sidx r m = Inr m'"
  using indexOf_mem(1,2) [OF assms(2)] assms(1)
  by (auto simp: pivot_step_def Let_def split: option.splits)

lemma foldE_pivot_defined:
  "wf_matrix m (length ds) sn \<Longrightarrow> \<forall>r \<in> set data. r_date r \<in> set ds
     \<Longrightarrow> \<exists>m'. foldE (pivot_step ds sidx) data m = Inr m'"
proof (induction data arbitrary: m)
  case Nil
  then show ?case by simp
next
  case (Cons r data)
  from Cons.prems obtain m1 where m1: "pivot_step ds sidx r m = Inr m1"
    using pivot_step_defined [of m ds r sidx] by (auto simp: wf_matrix_def)
  from pivot_step_wf [OF Cons.prems(1) m1] Cons.IH [of m1] Cons.prems(2)
  show ?case by (simp add: m1)
qed

lemma pivot_matrix_defined: "\<exists>m. pivot_matrix data = Inr m"
  unfolding pivot_matrix_def
  by (rule foldE_pivot_defined [OF wf_matrix_replicate]) (simp add: data_dates_def)

lemma loadCSV_defined:
  assumes "list_all (\<lambda>h. h \<in> set (hd (csv_rows csvText))) required_columns"
  shows "\<exists>this. loadCSV num csvText this0 = Inr this"
proof -
  obtain m where m: "pivot_matrix (csv_data num csvText) = Inr m"
    using pivot_matrix_defined by blast
  let ?t = "this0\<lparr>symbols := data_symbols (csv_data num csvText),
              symbolIndex := index_map (data_symbols (csv_data num csvText)),
              dates := data_dates (csv_data num csvText), dataMatrix := m\<rparr>"
  have "wf_matrix (dataMatrix ?t) (length (data_dates (csv_data num csvText))) (length (symbols ?t))"
    using pivot_matrix_wf [OF m] by simp
  from normalize_matrix_defined [OF this] obtain t' where "normalize_matrix ?t = Inr t'" ..
  then show ?thesis using assms m by (simp add: loadCSV_def Let_def)
qed

lemma createSequences_shapes:
  assumes "createSequences nd syms ds = (sq, tg)"
  shows "length sq = length ds - 12 - 3" and "length tg = length ds - 12 - 3"
    and "\<forall>x \<in> set sq. length x = 12 \<and> (\<forall>v \<in> set x. length v = 2 * length syms)"
    and "\<forall>l \<in> set tg. length l = length syms * 3"
proof -
  have fv: "length (featureVector nd syms date) = 2 * length syms" for date
    unfolding featureVector_def
    by (subst length_concat_const [where n = 2]) (auto split: option.splits)
  have tg: "length (target nd syms ds i) = length syms * 3" for i
    unfolding target_def Let_def predictionHorizon_def
    by (subst length_concat_const [where n = "length syms"]) auto
  from assms have sq: "sq = map (sequence nd syms ds) [0..<length ds - 12 - 3]"
    and tgs: "tg = map (target nd syms ds) [0..<length ds - 12 - 3]"
    by (auto simp: createSequences_def Let_def sequenceLength_def predictionHorizon_def)
  show "length sq = length ds - 12 - 3" by (simp add: sq)
  show "length tg = length ds - 12 - 3" by (simp add: tgs)
  show "\<forall>x \<in> set sq. length x = 12 \<and> (\<forall>v \<in> set x. length v = 2 * length syms)"
    by (auto simp: sq sequence_def sequenceLength_def fv)
  show "\<forall>l \<in> set tg. length l = length syms * 3"
    by (auto simp: tgs tg)
qed

section \<open>C1: sample count and shapes\<close>

text \<open>
  C1. After a successful \<open>loadCSV\<close>, \<open>buildDataset\<close> with a window length
  \<open>windowLen > 0\<close> and a horizon \<open>ahead\<close> returns, and its samples are one per
  anchor position \<open>d\<close> with \<open>windowLen \<le> d\<close> and \<open>d + ahead < |dates|\<close>, in
  that order: \<open>|dates| - windowLen - ahead\<close> samples, each feature sequence of
  \<open>windowLen\<close> rows of \<open>2 * |symbols|\<close> features, each label vector of
  \<open>|symbols| * ahead\<close> entries; the training and test parts together are these samples.
  With 20 dates, 2 symbols, \<open>windowLen = 12\<close> and \<open>ahead = 3\<close> that is
  \<open>20 - 12 - 3 = 5\<close> samples of shape 12 x 4 with 6 labels. \<open>createSequences\<close> of the
  second loader, whose window and horizon are the constants 12 and 3, has the same count
  and shapes.
\<close>

theorem window_count_and_shapes:
  assumes "loadCSV num csvText this0 = Inr this" and "0 < windowLen"
  shows "(\<exists>xy ds. samples this windowLen ahead = Inr xy
           \<and> buildDataset this windowLen ahead testSplit = Inr ds
           \<and> X_train ds @ X_test ds = map fst xy \<and> y_train ds @ y_test ds = map snd xy
           \<and> xy = map (\<lambda>d. (map (window_row (dataMatrix this) (length (symbols this))) [d - windowLen..<d],
                              label_of (dataMatrix this) (length (symbols this)) ahead d))
                      [windowLen..<length (dates this) - ahead]
           \<and> length xy = length (dates this) - windowLen - ahead
           \<and> (\<forall>(x, l) \<in> set xy. length x = windowLen
                  \<and> (\<forall>v \<in> set x. length v = 2 * length (symbols this))
                  \<and> length l = length (symbols this) * ahead))
       \<and> length (fst (createSequences nd syms ds')) = length ds' - 12 - 3
       \<and> length (snd (createSequences nd syms ds')) = length ds' - 12 - 3
       \<and> (\<forall>x \<in> set (fst (createSequences nd syms ds')).
               length x = 12 \<and> (\<forall>v \<in> set x. length v = 2 * length syms))
       \<and> (\<forall>l \<in> set (snd (createSequences nd syms ds')). length l = length syms * 3)"
proof -
  let ?m = "dataMatrix this" and ?sn = "length (symbols this)"
  let ?xy = "map (\<lambda>d. (map (window_row ?m ?sn) [d - windowLen..<d], label_of ?m ?sn ahead d))
                 [windowLen..<length (dates this) - ahead]"
  have s: "samples this windowLen ahead = Inr ?xy"
    by (rule samples_wf [OF loadCSV_wf(2) [OF assms(1)] assms(2)])
  define k where "k = \<lfloor>real (length ?xy) * (1 - testSplit)\<rfloor>"
  define ds where "ds = \<lparr>X_train = js_slice (map fst ?xy) 0 k, y_train = js_slice (map snd ?xy) 0 k,
      X_test = js_slice_from (map fst ?xy) k, y_test = js_slice_from (map snd ?xy) k,
      symbolNames = symbols this\<rparr>"
  have b: "buildDataset this windowLen ahead testSplit = Inr ds"
    using loadCSV_wf(1) [OF assms(1)] 
    by (simp add: buildDataset_def s Let_def ds_def k_def del: map_map)
  have p1: "X_train ds @ X_test ds = map fst ?xy" and p2: "y_train ds @ y_test ds = map snd ?xy"
    by (simp_all add: ds_def js_slice_partition del: map_map)
  have len: "length ?xy = length (dates this) - windowLen - ahead" by simp
  have sh: "\<forall>(x, l) \<in> set ?xy. length x = windowLen
                  \<and> (\<forall>v \<in> set x. length v = 2 * length (symbols this))
                  \<and> length l = length (symbols this) * ahead"
    by (auto simp: length_window_row length_label_of)
  have A: "\<exists>xy ds. samples this windowLen ahead = Inr xy
           \<and> buildDataset this windowLen ahead testSplit = Inr ds
           \<and> X_train ds @ X_test ds = map fst xy \<and> y_train ds @ y_test ds = map snd xy
           \<and> xy = ?xy
           \<and> length xy = length (dates this) - windowLen - ahead
           \<and> (\<forall>(x, l) \<in> set xy. length x = windowLen
                  \<and> (\<forall>v \<in> set x. length v = 2 * length (symbols this))
                  \<and> length l = length (symbols this) * ahead)"
    using s b p1 p2 len sh by blast
  obtain sq tg where c: "createSequences nd syms ds' = (sq, tg)" by (cases "createSequences nd syms ds'")
  have B: "length (fst (createSequences nd syms ds')) = length ds' - 12 - 3
         \<and> length (snd (createSequences nd syms ds')) = length ds' - 12 - 3
         \<and> (\<forall>x \<in> set (fst (createSequences nd syms ds')).
               length x = 12 \<and> (\<forall>v \<in> set x. length v = 2 * length syms))
         \<and> (\<forall>l \<in> set (snd (createSequences nd syms ds')). length l = length syms * 3)"
    using createSequences_shapes [OF c] by (simp add: c)
  from A B show ?thesis by blast
qed

text \<open>The scenario of C1: a file of 20 dates and the symbols A and B.\<close>

lemma rows20: "csv_rows csv20 =
    [[''Date'', ''Symbol'', ''Open'', ''Close''],
     [''d01'', ''A'', ''17'', ''15''],
     [''d01'', ''B'', ''8'', ''9''],
     [''d02'', ''A'', ''11'', ''20''],
     [''d02'', ''B'', ''11'', ''13''],
     [''d03'', ''A'', ''18'', ''14''],
     [''d03'', ''B'', ''7'', ''8''],
     [''d04'', ''A'', ''12'', ''19''],
     [''d04'', ''B'', ''10'', ''12''],
     [''d05'', ''A'', ''19'', ''13''],
     [''d05'', ''B'', ''6'', ''7''],
     [''d06'', ''A'', ''13'', ''18''],
     [''d06'', ''B'', ''9'', ''11''],
     [''d07'', ''A'', ''20'', ''12''],
     [''d07'', ''B'', ''5'', ''6''],
     [''d08'', ''A'', ''14'', ''17''],
     [''d08'', ''B'', ''8'', ''10''],
     [''d09'', ''A'', ''21'', ''11''],
     [''d09'', ''B'', ''11'', ''5''],
     [''d10'', ''A'', ''15'', ''16''],
     [''d10'', ''B'', ''7'', ''9''],
     [''d11'', ''A'', ''22'', ''10''],
     [''d11'', ''B'', ''10'', ''13''],
     [''d12'', ''A'', ''16'', ''15''],
     [''d12'', ''B'', ''6'', ''8''],
     [''d13'', ''A'', ''10'', ''20''],
     [''d13'', ''B'', ''9'', ''12''],
     [''d14'', ''A'', ''17'', ''14''],
     [''d14'', ''B'', ''5'', ''7''],
     [''d15'', ''A'', ''11'', ''19''],
     [''d15'', ''B'', ''8'', ''11''],
     [''d16'', ''A'', ''18'', ''13''],
     [''d16'', ''B'', ''11'', ''6''],
     [''d17'', ''A'', ''12'', ''18''],
     [''d17'', ''B'', ''7'', ''10''],
     [''d18'', ''A'', ''19'', ''12''],
     [''d18'', ''B'', ''10'', ''5''],
     [''d19'', ''A'', ''13'', ''17''],
     [''d19'', ''B'', ''6'', ''9''],
     [''d20'', ''A'', ''20'', ''11''],
     [''d20'', ''B'', ''9'', ''13'']]"
  unfolding csv20_def by code_simp

lemma data20: "csv_data decimal csv20 =
    [\<lparr>r_date = ''d01'', r_symbol = ''A'', r_open = Fin 17, r_close = Fin 15\<rparr>,
     \<lparr>r_date = ''d01'', r_symbol = ''B'', r_open = Fin 8, r_close = Fin 9\<rparr>,
     \<lparr>r_date = ''d02'', r_symbol = ''A'', r_open = Fin 11, r_close = Fin 20\<rparr>,
     \<lparr>r_date = ''d02'', r_symbol = ''B'', r_open = Fin 11, r_close = Fin 13\<rparr>,
     \<lparr>r_date = ''d03'', r_symbol = ''A'', r_open = Fin 18, r_close = Fin 14\<rparr>,
     \<lparr>r_date = ''d03'', r_symbol = ''B'', r_open = Fin 7, r_close = Fin 8\<rparr>,
     \<lparr>r_date = ''d04'', r_symbol = ''A'', r_open = Fin 12, r_close = Fin 19\<rparr>,
     \<lparr>r_date = ''d04'', r_symbol = ''B'', r_open = Fin 10, r_close = Fin 12\<rparr>,
     \<lparr>r_date = ''d05'', r_symbol = ''A'', r_open = Fin 19, r_close = Fin 13\<rparr>,
     \<lparr>r_date = ''d05'', r_symbol = ''B'', r_open = Fin 6, r_close = Fin 7\<rparr>,
     \<lparr>r_date = ''d06'', r_symbol = ''A'', r_open = Fin 13, r_close = Fin 18\<rparr>,
     \<lparr>r_date = ''d06'', r_symbol = ''B'', r_open = Fin 9, r_close = Fin 11\<rparr>,
     \<lparr>r_date = ''d07'', r_symbol = ''A'', r_open = Fin 20, r_close = Fin 12\<rparr>,
     \<lparr>r_date = ''d07'', r_symbol = ''B'', r_open = Fin 5, r_close = Fin 6\<rparr>,
     \<lparr>r_date = ''d08'', r_symbol = ''A'', r_open = Fin 14, r_close = Fin 17\<rparr>,
     \<lparr>r_date = ''d08'', r_symbol = ''B'', r_open = Fin 8, r_close = Fin 10\<rparr>,
     \<lparr>r_date = ''d09'', r_symbol = ''A'', r_open = Fin 21, r_close = Fin 11\<rparr>,
     \<lparr>r_date = ''d09'', r_symbol = ''B'', r_open = Fin 11, r_close = Fin 5\<rparr>,
     \<lparr>r_date = ''d10'', r_symbol = ''A'', r_open = Fin 15, r_close = Fin 16\<rparr>,
     \<lparr>r_date = ''d10'', r_symbol = ''B'', r_open = Fin 7, r_close = Fin 9\<rparr>,
     \<lparr>r_date = ''d11'', r_symbol = ''A'', r_open = Fin 22, r_close = Fin 10\<rparr>,
     \<lparr>r_date = ''d11'', r_symbol = ''B'', r_open = Fin 10, r_close = Fin 13\<rparr>,
     \<lparr>r_date = ''d12'', r_symbol = ''A'', r_open = Fin 16, r_close = Fin 15\<rparr>,
     \<lparr>r_date = ''d12'', r_symbol = ''B'', r_open = Fin 6, r_close = Fin 8\<rparr>,
     \<lparr>r_date = ''d13'', r_symbol = ''A'', r_open = Fin 10, r_close = Fin 20\<rparr>,
     \<lparr>r_date = ''d13'', r_symbol = ''B'', r_open = Fin 9, r_close = Fin 12\<rparr>,
     \<lparr>r_date = ''d14'', r_symbol = ''A'', r_open = Fin 17, r_close = Fin 14\<rparr>,
     \<lparr>r_date = ''d14'', r_symbol = ''B'', r_open = Fin 5, r_close = Fin 7\<rparr>,
     \<lparr>r_date = ''d15'', r_symbol = ''A'', r_open = Fin 11, r_close = Fin 19\<rparr>,
     \<lparr>r_date = ''d15'', r_symbol = ''B'', r_open = Fin 8, r_close = Fin 11\<rparr>,
     \<lparr>r_date = ''d16'', r_symbol = ''A'', r_open = Fin 18, r_close = Fin 13\<rparr>,
     \<lparr>r_date = ''d16'', r_symbol = ''B'', r_open = Fin 11, r_close = Fin 6\<rparr>,
     \<lparr>r_date = ''d17'', r_symbol = ''A'', r_open = Fin 12, r_close = Fin 18\<rparr>,
     \<lparr>r_date = ''d17'', r_symbol = ''B'', r_open = Fin 7, r_close = Fin 10\<rparr>,
     \<lparr>r_date = ''d18'', r_symbol = ''A'', r_open = Fin 19, r_close = Fin 12\<rparr>,
     \<lparr>r_date = ''d18'', r_symbol = ''B'', r_open = Fin 10, r_close = Fin 5\<rparr>,
     \<lparr>r_date = ''d19'', r_symbol = ''A'', r_open = Fin 13, r_close = Fin 17\<rparr>,
     \<lparr>r_date = ''d19'', r_symbol = ''B'', r_open = Fin 6, r_close = Fin 9\<rparr>,
     \<lparr>r_date = ''d20'', r_symbol = ''A'', r_open = Fin 20, r_close = Fin 11\<rparr>,
     \<lparr>r_date = ''d20'', r_symbol = ''B'', r_open = Fin 9, r_close = Fin 13\<rparr>]"
  unfolding csv_data_def rows20 by code_simp

lemma dates20: "data_dates (csv_data decimal csv20) = [''d01'', ''d02'', ''d03'', ''d04'', ''d05'', ''d06'', ''d07'', ''d08'', ''d09'', ''d10'', ''d11'', ''d12'', ''d13'', ''d14'', ''d15'', ''d16'', ''d17'', ''d18'', ''d19'', ''d20'']"
  unfolding data20 by code_simp

lemma syms20: "data_symbols (csv_data decimal csv20) = [''A'', ''B'']"
  unfolding data20 by code_simp

theorem window_count_and_shapes_witness:
  "\<exists>this xy ds. loadCSV decimal csv20 new_DataLoader = Inr this
      \<and> length (dates this) = 20 \<and> length (symbols this) = 2
      \<and> samples this 12 3 = Inr xy \<and> buildDataset this 12 3 (1/5) = Inr ds
      \<and> X_train ds @ X_test ds = map fst xy \<and> y_train ds @ y_test ds = map snd xy
      \<and> map (\<lambda>(x, l). (length x, map length x, length l)) xy = replicate 5 (12, replicate 12 4, 6)"
proof -
  have "list_all (\<lambda>h. h \<in> set (hd (csv_rows csv20))) required_columns"
    unfolding rows20 required_columns_def by simp
  from loadCSV_defined [OF this] obtain this where
    l: "loadCSV decimal csv20 new_DataLoader = Inr this" by blast
  have d: "length (dates this) = 20" and s: "length (symbols this) = 2"
    using loadCSV_wf(3,4) [OF l] by (simp_all add: dates20 syms20)
  have w: "0 < (12::nat)" by simp
  from window_count_and_shapes [OF l w, of 3 "1/5"] obtain xy ds where
    x0: "samples this 12 3 = Inr xy \<and> buildDataset this 12 3 (1/5) = Inr ds
       \<and> X_train ds @ X_test ds = map fst xy \<and> y_train ds @ y_test ds = map snd xy
       \<and> xy = map (\<lambda>d. (map (window_row (dataMatrix this) (length (symbols this))) [d - 12..<d],
                              label_of (dataMatrix this) (length (symbols this)) 3 d))
                      [12..<length (dates this) - 3]
       \<and> length xy = length (dates this) - 12 - 3
       \<and> (\<forall>(x, l) \<in> set xy. length x = 12
                  \<and> (\<forall>v \<in> set x. length v = 2 * length (symbols this))
                  \<and> length l = length (symbols this) * 3)"
    by blast
  have x: "samples this 12 3 = Inr xy" "buildDataset this 12 3 (1/5) = Inr ds"
       "X_train ds @ X_test ds = map fst xy" "y_train ds @ y_test ds = map snd xy"
       "length xy = 5"
       "\<forall>(x, l) \<in> set xy. length x = 12 \<and> (\<forall>v \<in> set x. length v = 4) \<and> length l = 6"
    using x0 by (simp_all add: d s)
  have "map (\<lambda>(x, l). (length x, map length x, length l)) xy = replicate 5 (12, replicate 12 4, 6)"
  proof (rule nth_equalityI)
    show "length (map (\<lambda>(x, l). (length x, map length x, length l)) xy)
          = length (replicate 5 (12::nat, replicate 12 (4::nat), 6::nat))"
      using x(5) by simp
  next
    fix i assume "i < length (map (\<lambda>(x, l). (length x, map length x, length l)) xy)"
    then have i: "i < length xy" by simp
    then have m: "xy ! i \<in> set xy" by simp
    obtain a b where ab: "xy ! i = (a, b)" by (cases "xy ! i")
    from x(6) m ab have "length a = 12" "\<forall>v \<in> set a. length v = 4" "length b = 6" by auto
    moreover from this have "map length a = replicate 12 4"
      by (intro replicate_eqI) auto
    ultimately show "map (\<lambda>(x, l). (length x, map length x, length l)) xy ! i
          = replicate 5 (12::nat, replicate 12 (4::nat), 6::nat) ! i"
      using i x(5) ab by simp
  qed
  with l d s x(1-4) show ?thesis by blast
qed

section \<open>C6: schema validation\<close>

lemma rows_gap: "csv_rows csv_gap =
    [[''Date'', ''Symbol'', ''Open'', ''Close''], [''d1'', ''A'', ''1'', ''2''],
     [''d2'', ''A'', ''3'', ''4''], [''d1'', ''B'', ''5'', ''6'']]"
  unfolding csv_gap_def by code_simp

lemma data_gap: "csv_data decimal csv_gap =
    [\<lparr>r_date = ''d1'', r_symbol = ''A'', r_open = Fin 1, r_close = Fin 2\<rparr>,
     \<lparr>r_date = ''d2'', r_symbol = ''A'', r_open = Fin 3, r_close = Fin 4\<rparr>,
     \<lparr>r_date = ''d1'', r_symbol = ''B'', r_open = Fin 5, r_close = Fin 6\<rparr>]"
  unfolding csv_data_def rows_gap by code_simp



lemma rows_noClose: "csv_rows csv_noClose = [[''Date'', ''Symbol'', ''Open''], [''d1'', ''A'', ''1'']]"
  unfolding csv_noClose_def by code_simp

lemma rows_noDate: "csv_rows csv_noDate = [[''Symbol'', ''Open'', ''Close''], [''A'', ''1'', ''2'']]"
  unfolding csv_noDate_def by code_simp

lemma loadCSV_missing:
  assumes "\<not> set required_columns \<subseteq> set (hd (csv_rows csvText))"
  shows "loadCSV num csvText this = Inl (Error ''CSV columns missing. Required: Date,Symbol,Open,Close'')"
  using assms by (auto simp: loadCSV_def list_all_iff)

lemma length_rawData_of:
  "length (rawData_of csvText) = length (js_split CHR 0x0A (js_trim csvText)) - 1"
  by (simp add: rawData_of_def Let_def)

text \<open>
  C6, as the code has it. \<open>DataLoader.loadCSV\<close> fails exactly when the header row
  lacks a required column, and then with the one fixed error
  "CSV columns missing. Required: Date,Symbol,Open,Close", which lists the four required
  columns whatever is missing; it returns no loader, so no record is parsed and nothing
  is pivoted. With all four columns in the header it returns a loader.
  \<open>StockDataLoader.parseCSV\<close> does not look at the header: it makes one record of every
  line after the first.
\<close>

theorem schema_validation:
  "(\<not> set required_columns \<subseteq> set (hd (csv_rows csvText)) \<longrightarrow>
      loadCSV num csvText this = Inl (Error ''CSV columns missing. Required: Date,Symbol,Open,Close''))
   \<and> (set required_columns \<subseteq> set (hd (csv_rows csvText)) \<longrightarrow>
      (\<exists>this'. loadCSV num csvText this = Inr this'))
   \<and> length (rawData_of csvText) = length (js_split CHR 0x0A (js_trim csvText)) - 1"
proof (intro conjI impI)
  assume "\<not> set required_columns \<subseteq> set (hd (csv_rows csvText))"
  then show "loadCSV num csvText this = Inl (Error ''CSV columns missing. Required: Date,Symbol,Open,Close'')"
    by (rule loadCSV_missing)
next
  assume "set required_columns \<subseteq> set (hd (csv_rows csvText))"
  then have "list_all (\<lambda>h. h \<in> set (hd (csv_rows csvText))) required_columns"
    by (auto simp: list_all_iff)
  then show "\<exists>this'. loadCSV num csvText this = Inr this'" by (rule loadCSV_defined)
next
  show "length (rawData_of csvText) = length (js_split CHR 0x0A (js_trim csvText)) - 1"
    by (rule length_rawData_of)
qed

theorem schema_validation_witness:
  "\<not> set required_columns \<subseteq> set (hd (csv_rows csv_noClose))
   \<and> loadCSV decimal csv_noClose new_DataLoader
       = Inl (Error ''CSV columns missing. Required: Date,Symbol,Open,Close'')
   \<and> set required_columns \<subseteq> set (hd (csv_rows csv_gap))
   \<and> (\<exists>this'. loadCSV decimal csv_gap new_DataLoader = Inr this')"
proof -
  have a: "\<not> set required_columns \<subseteq> set (hd (csv_rows csv_noClose))"
    unfolding rows_noClose required_columns_def by simp
  have b: "set required_columns \<subseteq> set (hd (csv_rows csv_gap))"
    unfolding rows_gap required_columns_def by simp
  from a b schema_validation [of csv_noClose decimal new_DataLoader]
    schema_validation [of csv_gap decimal new_DataLoader]
  show ?thesis by blast
qed

text \<open>
  The sentence of the specification does not hold of the code: a header without Close and a header without Date give the
  same error, so the error does not name what is missing; and the second loader parses
  the record of a file without Close and hands its symbol on.
\<close>

theorem schema_validation_counterexample:
  "loadCSV decimal csv_noClose new_DataLoader
     = Inl (Error ''CSV columns missing. Required: Date,Symbol,Open,Close'')
   \<and> loadCSV decimal csv_noDate new_DataLoader
     = Inl (Error ''CSV columns missing. Required: Date,Symbol,Open,Close'')
   \<and> length (rawData_of csv_noClose) = 1
   \<and> symbolNames (parseCSV decimal csv_noClose) = [Some ''A'']"
proof -
  have a: "\<not> set required_columns \<subseteq> set (hd (csv_rows csv_noClose))"
    unfolding rows_noClose required_columns_def by simp
  have b: "\<not> set required_columns \<subseteq> set (hd (csv_rows csv_noDate))"
    unfolding rows_noDate required_columns_def by simp
  have c: "length (rawData_of csv_noClose) = 1"
    unfolding csv_noClose_def by code_simp
  have d: "symbolNames (parseCSV decimal csv_noClose) = [Some ''A'']"
    unfolding csv_noClose_def parseCSV_def prepareData_def splitData_def Let_def
    by (simp, code_simp)
  from loadCSV_missing [OF a] loadCSV_missing [OF b] c d show ?thesis by blast
qed

section \<open>C7: fewer dates than window plus horizon\<close>




lemma loadCSV_gap: "\<not> isl (loadCSV decimal csv_gap new_DataLoader)"
proof -
  have "list_all (\<lambda>h. h \<in> set (hd (csv_rows csv_gap))) required_columns"
    unfolding rows_gap required_columns_def by simp
  from loadCSV_defined [OF this] show ?thesis by (metis sum.disc(2))
qed





section \<open>C8: several records for one date and symbol\<close>

lemma index_map_SomeD: "index_map syms x = Some k \<Longrightarrow> k < length syms \<and> syms ! k = x"
proof -
  assume "index_map syms x = Some k"
  then have "(x, k) \<in> set (zip syms [0..<length syms])"
    unfolding index_map_def by (rule map_of_SomeD)
  then show ?thesis by (auto simp: in_set_zip)
qed

lemma index_map_mem:
  assumes "x \<in> set syms"
  shows "\<exists>k. index_map syms x = Some k"
proof -
  have "map fst (zip syms [0..<length syms]) = syms" by simp
  with assms have "x \<in> fst ` set (zip syms [0..<length syms])"
    by (metis image_set)
  then have "map_of (zip syms [0..<length syms]) x \<noteq> None"
    by (simp only: map_of_eq_None_iff not_not)
  then obtain k where "map_of (zip syms [0..<length syms]) x = Some k"
    by (cases "map_of (zip syms [0..<length syms]) x") auto
  then show ?thesis unfolding index_map_def by blast
qed

lemma pivot_step_cell:
  assumes wf: "wf_matrix m (length ds) (length syms)"
    and r: "r_date r \<in> set ds" "r_symbol r \<in> set syms"
    and d: "d \<in> set ds" and k: "index_map syms s = Some k"
    and st: "pivot_step ds (index_map syms) r m = Inr m1"
  shows "m1 ! nat (indexOf ds d) ! k =
         (if r_date r = d \<and> r_symbol r = s then \<lparr>Open = r_open r, Close = r_close r\<rparr>
          else m ! nat (indexOf ds d) ! k)"
proof -
  let ?i = "nat (indexOf ds d)" and ?j = "nat (indexOf ds (r_date r))"
  let ?c = "\<lparr>Open = r_open r, Close = r_close r\<rparr>"
  from index_map_mem [OF r(2)] obtain k' where k': "index_map syms (r_symbol r) = Some k'" ..
  have i: "?i < length m" "ds ! ?i = d" using indexOf_mem [OF d] wf by (auto simp: wf_matrix_def)
  have j: "?j < length m" "ds ! ?j = r_date r" "0 \<le> indexOf ds (r_date r)"
    using indexOf_mem [OF r(1)] wf by (auto simp: wf_matrix_def)
  have m1: "m1 = m[?j := (m ! ?j)[k' := ?c]]"
    using st j(1,3) k' by (simp add: pivot_step_def Let_def split: if_splits)
  have len: "length (m ! ?j) = length syms"
    using wf j(1) by (auto simp: wf_matrix_def list_all_iff)
  have kk: "k < length syms" "syms ! k = s" "k' < length syms" "syms ! k' = r_symbol r"
    using index_map_SomeD [OF k] index_map_SomeD [OF k'] by auto
  have e1: "?i = ?j \<longleftrightarrow> r_date r = d" using i(2) j(2) by metis
  have e2: "k = k' \<longleftrightarrow> r_symbol r = s" using kk(2,4) k k' by (metis option.inject)
  show ?thesis
  proof (cases "?i = ?j")
    case True
    then have "m1 ! ?i = (m ! ?j)[k' := ?c]" using m1 j(1) by simp
    then show ?thesis using True e1 e2 kk(1) len by (auto simp: nth_list_update)
  next
    case False
    then have "m1 ! ?i = m ! ?i" using m1 by simp
    then show ?thesis using False e1 by simp
  qed
qed

lemma foldE_pivot_cell:
  assumes "wf_matrix m (length ds) (length syms)"
    and "\<forall>x \<in> set rs. r_date x \<in> set ds \<and> r_symbol x \<in> set syms"
    and "d \<in> set ds" and "index_map syms s = Some k"
    and "foldE (pivot_step ds (index_map syms)) rs m = Inr m'"
  shows "m' ! nat (indexOf ds d) ! k =
         (if filter (\<lambda>x. r_date x = d \<and> r_symbol x = s) rs = [] then m ! nat (indexOf ds d) ! k
          else \<lparr>Open = r_open (last (filter (\<lambda>x. r_date x = d \<and> r_symbol x = s) rs)),
                Close = r_close (last (filter (\<lambda>x. r_date x = d \<and> r_symbol x = s) rs))\<rparr>)"
  using assms(1,2,5)
proof (induction rs arbitrary: m)
  case Nil
  then show ?case by simp
next
  case (Cons r rs)
  from Cons.prems(3) obtain m1 where m1: "pivot_step ds (index_map syms) r m = Inr m1"
    and rest: "foldE (pivot_step ds (index_map syms)) rs m1 = Inr m'"
    by (auto split: sum.splits)
  have wf1: "wf_matrix m1 (length ds) (length syms)"
    by (rule pivot_step_wf [OF Cons.prems(1) m1])
  have c: "m1 ! nat (indexOf ds d) ! k =
         (if r_date r = d \<and> r_symbol r = s then \<lparr>Open = r_open r, Close = r_close r\<rparr>
          else m ! nat (indexOf ds d) ! k)"
    using pivot_step_cell [OF Cons.prems(1) _ _ assms(3,4) m1] Cons.prems(2) by simp
  from Cons.IH [OF wf1 _ rest] Cons.prems(2) c show ?case by simp
qed

lemma pivot_matrix_last:
  assumes "r \<in> set data"
  shows "\<exists>m k. pivot_matrix data = Inr m \<and> index_map (data_symbols data) (r_symbol r) = Some k
     \<and> m ! nat (indexOf (data_dates data) (r_date r)) ! k
       = \<lparr>Open = r_open (last (filter (same_cell r) data)),
          Close = r_close (last (filter (same_cell r) data))\<rparr>"
proof -
  obtain m where m: "pivot_matrix data = Inr m" using pivot_matrix_defined by blast
  have d: "r_date r \<in> set (data_dates data)" and s: "r_symbol r \<in> set (data_symbols data)"
    using assms by (auto simp: data_dates_def data_symbols_def)
  from index_map_mem [OF s] obtain k where k: "index_map (data_symbols data) (r_symbol r) = Some k" ..
  have all: "\<forall>x \<in> set data. r_date x \<in> set (data_dates data) \<and> r_symbol x \<in> set (data_symbols data)"
    by (auto simp: data_dates_def data_symbols_def)
  have ne: "filter (\<lambda>x. r_date x = r_date r \<and> r_symbol x = r_symbol r) data \<noteq> []"
    using assms by (auto simp: filter_empty_conv)
  from foldE_pivot_cell [OF wf_matrix_replicate all d k m [unfolded pivot_matrix_def]] ne
  have "m ! nat (indexOf (data_dates data) (r_date r)) ! k
       = \<lparr>Open = r_open (last (filter (same_cell r) data)),
          Close = r_close (last (filter (same_cell r) data))\<rparr>"
    unfolding same_cell_def by simp
  with m k show ?thesis by blast
qed

lemma fold_upd_key:
  assumes "inj_on k (insert x0 (set xs))"
  shows "fold (\<lambda>x f. case F x of None \<Rightarrow> f | Some y \<Rightarrow> f(k x \<mapsto> y)) xs f0 (k x0)
         = (if x0 \<in> set xs \<and> F x0 \<noteq> None then F x0 else f0 (k x0))"
  using assms
proof (induction xs arbitrary: f0)
  case Nil
  then show ?case by simp
next
  case (Cons x xs)
  have inj: "inj_on k (insert x0 (set xs))"
    using Cons.prems by (auto simp: inj_on_def)
  have kx: "k x = k x0 \<longleftrightarrow> x = x0" using Cons.prems by (auto simp: inj_on_def)
  show ?case
    using Cons.IH [OF inj, of "case F x of None \<Rightarrow> f0 | Some y \<Rightarrow> f0(k x \<mapsto> y)"] kx
    by (auto split: option.splits)
qed

lemma find_filter: "find P xs = (case filter P xs of [] \<Rightarrow> None | x # _ \<Rightarrow> Some x)"
  by (induction xs) auto

lemma pivot_cells_lookup:
  assumes "inj_on key (set syms)" and "s \<in> set syms"
  shows "pivot_cells pf rawData syms date (key s)
         = map_option (\<lambda>rcd. \<lparr>Open = parseFloat_of pf (rcd ''Open''), Close = parseFloat_of pf (rcd ''Close'')\<rparr>)
             (find (\<lambda>d. d ''Date'' = date \<and> d ''Symbol'' = s) rawData)"
proof -
  let ?G = "\<lambda>rcd. \<lparr>Open = parseFloat_of pf (rcd ''Open''), Close = parseFloat_of pf (rcd ''Close'')\<rparr>"
  let ?F = "\<lambda>symbol. map_option ?G (find (\<lambda>d. d ''Date'' = date \<and> d ''Symbol'' = symbol) rawData)"
  have "pivot_cells pf rawData syms date
        = fold (\<lambda>x f. case ?F x of None \<Rightarrow> f | Some y \<Rightarrow> f(key x \<mapsto> y)) syms Map.empty"
    unfolding pivot_cells_def by (rule arg_cong [where f = "\<lambda>g. fold g syms Map.empty"])
      (auto simp: fun_eq_iff split: option.splits)
  moreover have "inj_on key (insert s (set syms))" using assms by (simp add: insert_absorb)
  ultimately show ?thesis using fold_upd_key [of key s syms ?F Map.empty] assms(2) by auto
qed

lemma pivot_lookup:
  assumes "inj_on key (set ds)" and "d \<in> set ds"
  shows "pivot pf rawData syms ds (key d) = Some (pivot_cells pf rawData syms d)"
proof -
  let ?F = "\<lambda>date. Some (pivot_cells pf rawData syms date)"
  have "pivot pf rawData syms ds
        = fold (\<lambda>x f. case ?F x of None \<Rightarrow> f | Some y \<Rightarrow> f(key x \<mapsto> y)) ds Map.empty"
    unfolding pivot_def by simp
  moreover have "inj_on key (insert d (set ds))" using assms by (simp add: insert_absorb)
  ultimately show ?thesis using fold_upd_key [of key d ds ?F Map.empty] assms(2) by auto
qed

lemma set_js_sort: "set (js_sort xs) = set xs"
proof -
  have "Some ` set (concat (map (\<lambda>x. case x of None \<Rightarrow> [] | Some s \<Rightarrow> [s]) xs)) = set xs - {None}"
    by (induction xs) (auto split: option.splits)
  then show ?thesis by (auto simp: js_sort_def)
qed

lemma set_js_set: "set (js_set xs) = set xs"
  by (simp add: js_set_def)

lemma pivot_first:
  assumes "e \<in> set rawData"
    and "inj_on key (set (dates_of rawData))" and "inj_on key (set (symbols_of rawData))"
  shows "lookup2 (pivot pf rawData (symbols_of rawData) (dates_of rawData)) (e ''Date'') (e ''Symbol'')
         = Some \<lparr>Open = parseFloat_of pf (hd (filter (same_entry e) rawData) ''Open''),
                 Close = parseFloat_of pf (hd (filter (same_entry e) rawData) ''Close'')\<rparr>"
proof -
  have d: "e ''Date'' \<in> set (dates_of rawData)" and s: "e ''Symbol'' \<in> set (symbols_of rawData)"
    using assms(1) by (auto simp: dates_of_def symbols_of_def set_js_sort set_js_set)
  have ne: "filter (same_entry e) rawData \<noteq> []"
    using assms(1) by (auto simp: filter_empty_conv same_entry_def)
  have f: "find (\<lambda>d. d ''Date'' = e ''Date'' \<and> d ''Symbol'' = e ''Symbol'') rawData
           = Some (hd (filter (same_entry e) rawData))"
    using ne unfolding find_filter same_entry_def by (auto split: list.splits)
  show ?thesis
    unfolding lookup2_def pivot_lookup [OF assms(2) d]
    by (simp add: pivot_cells_lookup [OF assms(3) s] f)
qed

text \<open>
  C8, as the code has it. In \<open>DataLoader.loadCSV\<close> the pivot loop writes the records in
  input order, so the cell of a date and symbol holds, before normalization, the open
  and close of the last record for them. In \<open>StockDataLoader.prepareData\<close> the cell is
  taken from \<open>rawData.find\<close>, so it holds the open and close of the first record for
  them (dates and symbols being distinct as property names).
\<close>

theorem duplicate_rows:
  assumes "r \<in> set data" and "e \<in> set rawData"
    and "inj_on key (set (dates_of rawData))" and "inj_on key (set (symbols_of rawData))"
  shows "(\<exists>m k. pivot_matrix data = Inr m \<and> index_map (data_symbols data) (r_symbol r) = Some k
           \<and> m ! nat (indexOf (data_dates data) (r_date r)) ! k
             = \<lparr>Open = r_open (last (filter (same_cell r) data)),
                Close = r_close (last (filter (same_cell r) data))\<rparr>)
     \<and> lookup2 (pivot pf rawData (symbols_of rawData) (dates_of rawData)) (e ''Date'') (e ''Symbol'')
         = Some \<lparr>Open = parseFloat_of pf (hd (filter (same_entry e) rawData) ''Open''),
                 Close = parseFloat_of pf (hd (filter (same_entry e) rawData) ''Close'')\<rparr>"
  using pivot_matrix_last [OF assms(1)] pivot_first [OF assms(2,3,4)] by blast

lemma rows_dup: "csv_rows csv_dup =
    [[''Date'', ''Symbol'', ''Open'', ''Close''], [''d1'', ''A'', ''1'', ''2''], [''d1'', ''A'', ''3'', ''4'']]"
  unfolding csv_dup_def by code_simp

lemma data_dup: "csv_data decimal csv_dup =
    [\<lparr>r_date = ''d1'', r_symbol = ''A'', r_open = Fin 1, r_close = Fin 2\<rparr>,
     \<lparr>r_date = ''d1'', r_symbol = ''A'', r_open = Fin 3, r_close = Fin 4\<rparr>]"
  unfolding csv_data_def rows_dup by code_simp

lemma entries_dup:
  "map (\<lambda>e. (e ''Date'', e ''Symbol'', e ''Open'', e ''Close'')) (rawData_of csv_dup)
   = [(Some ''d1'', Some ''A'', Some ''1'', Some ''2''), (Some ''d1'', Some ''A'', Some ''3'', Some ''4'')]"
  unfolding csv_dup_def by code_simp

lemma dates_of_dup: "dates_of (rawData_of csv_dup) = [Some ''d1'']"
  unfolding csv_dup_def by code_simp

lemma symbols_of_dup: "symbols_of (rawData_of csv_dup) = [Some ''A'']"
  unfolding csv_dup_def by code_simp

lemma pivot_dup:
  "lookup2 (pivot decimal (rawData_of csv_dup) (symbols_of (rawData_of csv_dup))
              (dates_of (rawData_of csv_dup))) (Some ''d1'') (Some ''A'')
   = Some \<lparr>Open = Fin 1, Close = Fin 2\<rparr>"
  unfolding symbols_of_dup dates_of_dup unfolding csv_dup_def by code_simp

lemma first_entry_dup:
  "hd (rawData_of csv_dup) ''Date'' = Some ''d1''"
  "hd (rawData_of csv_dup) ''Symbol'' = Some ''A''"
  "parseFloat_of decimal (hd (filter (same_entry (hd (rawData_of csv_dup))) (rawData_of csv_dup)) ''Open'') = Fin 1"
  "parseFloat_of decimal (hd (filter (same_entry (hd (rawData_of csv_dup))) (rawData_of csv_dup)) ''Close'') = Fin 2"
  unfolding csv_dup_def by code_simp+

lemma last_row_dup:
  "last (filter (same_cell \<lparr>r_date = ''d1'', r_symbol = ''A'', r_open = Fin 1, r_close = Fin 2\<rparr>)
          (csv_data decimal csv_dup))
   = \<lparr>r_date = ''d1'', r_symbol = ''A'', r_open = Fin 3, r_close = Fin 4\<rparr>"
  unfolding data_dup by (simp add: same_cell_def)

lemma axes_dup:
  "indexOf (data_dates (csv_data decimal csv_dup)) ''d1'' = 0"
  "index_map (data_symbols (csv_data decimal csv_dup)) ''A'' = Some 0"
  unfolding data_dup by code_simp+

theorem duplicate_rows_witness:
  "\<lparr>r_date = ''d1'', r_symbol = ''A'', r_open = Fin 1, r_close = Fin 2\<rparr> \<in> set (csv_data decimal csv_dup)
   \<and> hd (rawData_of csv_dup) \<in> set (rawData_of csv_dup)
   \<and> inj_on key (set (dates_of (rawData_of csv_dup)))
   \<and> inj_on key (set (symbols_of (rawData_of csv_dup)))
   \<and> (\<exists>m. pivot_matrix (csv_data decimal csv_dup) = Inr m \<and> m ! 0 ! 0 = \<lparr>Open = Fin 3, Close = Fin 4\<rparr>)
   \<and> lookup2 (pivot decimal (rawData_of csv_dup) (symbols_of (rawData_of csv_dup))
                (dates_of (rawData_of csv_dup))) (Some ''d1'') (Some ''A'')
       = Some \<lparr>Open = Fin 1, Close = Fin 2\<rparr>"
proof -
  let ?r = "\<lparr>r_date = ''d1'', r_symbol = ''A'', r_open = Fin 1, r_close = Fin 2\<rparr>"
  let ?e = "hd (rawData_of csv_dup)"
  have a: "?r \<in> set (csv_data decimal csv_dup)" unfolding data_dup by simp
  have "length (map (\<lambda>e. (e ''Date'', e ''Symbol'', e ''Open'', e ''Close'')) (rawData_of csv_dup)) = 2"
    unfolding entries_dup by simp
  then have "length (rawData_of csv_dup) = 2" by simp
  then have b: "?e \<in> set (rawData_of csv_dup)" by (cases "rawData_of csv_dup") auto
  have c: "inj_on key (set (dates_of (rawData_of csv_dup)))" by (simp add: dates_of_dup)
  have d: "inj_on key (set (symbols_of (rawData_of csv_dup)))" by (simp add: symbols_of_dup)
  from duplicate_rows [OF a b c d, of decimal] a b c d show ?thesis
    by (simp add: first_entry_dup last_row_dup axes_dup)
qed

text \<open>The sentence of the specification does not hold of the code: on a file with the records \<open>d1,A,1,2\<close> and then
  \<open>d1,A,3,4\<close> the cell of the second loader holds the values of the first record.\<close>

theorem duplicate_rows_counterexample:
  "map (\<lambda>e. (e ''Date'', e ''Symbol'', e ''Open'', e ''Close'')) (rawData_of csv_dup)
     = [(Some ''d1'', Some ''A'', Some ''1'', Some ''2''), (Some ''d1'', Some ''A'', Some ''3'', Some ''4'')]
   \<and> lookup2 (pivot decimal (rawData_of csv_dup) (symbols_of (rawData_of csv_dup))
                (dates_of (rawData_of csv_dup))) (Some ''d1'') (Some ''A'')
       = Some \<lparr>Open = Fin 1, Close = Fin 2\<rparr>"
  using entries_dup pivot_dup by blast

section \<open>The statistics and the cells after \<open>_normalize\<close>\<close>

lemma calc_min_nth:
  assumes "distinct syms" and "i < length syms"
  shows "calc_min syms m (syms ! i)
         = Some \<lparr>Open = Math_min (openArrs m i), Close = Math_min (closeArrs m i)\<rparr>"
proof -
  have inj: "inj_on (\<lambda>i. syms ! i) (insert i (set [0..<length syms]))"
    using assms by (auto simp: inj_on_def nth_eq_iff_index_eq)
  from fold_upd_key [OF inj, of "\<lambda>i. Some \<lparr>Open = Math_min (openArrs m i), Close = Math_min (closeArrs m i)\<rparr>" Map.empty]
  show ?thesis using assms(2) by (simp add: calc_min_def)
qed

lemma calc_max_nth:
  assumes "distinct syms" and "i < length syms"
  shows "calc_max syms m (syms ! i)
         = Some \<lparr>Open = Math_max (openArrs m i), Close = Math_max (closeArrs m i)\<rparr>"
proof -
  have inj: "inj_on (\<lambda>i. syms ! i) (insert i (set [0..<length syms]))"
    using assms by (auto simp: inj_on_def nth_eq_iff_index_eq)
  from fold_upd_key [OF inj, of "\<lambda>i. Some \<lparr>Open = Math_max (openArrs m i), Close = Math_max (closeArrs m i)\<rparr>" Map.empty]
  show ?thesis using assms(2) by (simp add: calc_max_def)
qed

lemma normalize_matrix_cells:
  assumes "normalize_matrix this = Inr this'" and "distinct (symbols this)"
    and "s < length (symbols this)"
  shows "min_stats this' (symbols this ! s)
           = Some \<lparr>Open = Math_min (openArrs (dataMatrix this) s),
                   Close = Math_min (closeArrs (dataMatrix this) s)\<rparr>"
    and "max_stats this' (symbols this ! s)
           = Some \<lparr>Open = Math_max (openArrs (dataMatrix this) s),
                   Close = Math_max (closeArrs (dataMatrix this) s)\<rparr>"
    and "w < length (dataMatrix this) \<Longrightarrow>
           dataMatrix this' ! w ! s = norm_cell (dataMatrix this) s (dataMatrix this ! w ! s)"
proof -
  let ?m = "dataMatrix this" and ?sy = "symbols this"
  from assms(1) have t: "this' = this\<lparr>min_stats := calc_min ?sy ?m, max_stats := calc_max ?sy ?m,
       dataMatrix := map (\<lambda>day. map (\<lambda>s. scale_cell (calc_min ?sy ?m) (calc_max ?sy ?m) (?sy ! s) (day ! s))
                                    [0..<length ?sy]) ?m\<rparr>"
    by (simp add: normalize_matrix_def Let_def split: if_splits)
  show "min_stats this' (?sy ! s) = Some \<lparr>Open = Math_min (openArrs ?m s), Close = Math_min (closeArrs ?m s)\<rparr>"
    by (simp add: t calc_min_nth [OF assms(2,3)])
  show "max_stats this' (?sy ! s) = Some \<lparr>Open = Math_max (openArrs ?m s), Close = Math_max (closeArrs ?m s)\<rparr>"
    by (simp add: t calc_max_nth [OF assms(2,3)])
  show "dataMatrix this' ! w ! s = norm_cell ?m s (?m ! w ! s)" if "w < length ?m"
    using that assms(3)
    by (simp add: t scale_cell_def norm_cell_def calc_min_nth [OF assms(2,3)] calc_max_nth [OF assms(2,3)])
qed

lemma distinct_data_symbols: "distinct (data_symbols data)"
  by (simp add: data_symbols_def)

lemma distinct_data_dates: "distinct (data_dates data)"
  by (simp add: data_dates_def)

lemma loadCSV_cells:
  assumes "loadCSV num csvText this0 = Inr this"
  shows "\<exists>m0. pivot_matrix (csv_data num csvText) = Inr m0
     \<and> wf_matrix m0 (length (dates this)) (length (symbols this))
     \<and> (\<forall>s < length (symbols this).
           min_stats this (symbols this ! s)
             = Some \<lparr>Open = Math_min (openArrs m0 s), Close = Math_min (closeArrs m0 s)\<rparr>
         \<and> max_stats this (symbols this ! s)
             = Some \<lparr>Open = Math_max (openArrs m0 s), Close = Math_max (closeArrs m0 s)\<rparr>
         \<and> (\<forall>w < length (dates this). dataMatrix this ! w ! s = norm_cell m0 s (m0 ! w ! s)))"
proof -
  let ?data = "csv_data num csvText"
  from assms obtain m this' where
    m: "pivot_matrix ?data = Inr m"
    and n: "normalize_matrix (this0\<lparr>symbols := data_symbols ?data,
              symbolIndex := index_map (data_symbols ?data),
              dates := data_dates ?data, dataMatrix := m\<rparr>) = Inr this'"
    and t: "this = this'\<lparr>ready := True\<rparr>"
    by (auto simp: loadCSV_def Let_def split: if_splits sum.splits)
  let ?t = "this0\<lparr>symbols := data_symbols ?data, symbolIndex := index_map (data_symbols ?data),
              dates := data_dates ?data, dataMatrix := m\<rparr>"
  have sy: "symbols this = data_symbols ?data" and da: "dates this = data_dates ?data"
    using loadCSV_wf(3,4) [OF assms] by auto
  have wf: "wf_matrix m (length (dates this)) (length (symbols this))"
    using pivot_matrix_wf [OF m] by (simp add: sy da)
  have d: "distinct (symbols ?t)" by (simp add: distinct_data_symbols)
  have "min_stats this (symbols this ! s) = Some \<lparr>Open = Math_min (openArrs m s), Close = Math_min (closeArrs m s)\<rparr>
      \<and> max_stats this (symbols this ! s) = Some \<lparr>Open = Math_max (openArrs m s), Close = Math_max (closeArrs m s)\<rparr>
      \<and> (\<forall>w < length (dates this). dataMatrix this ! w ! s = norm_cell m s (m ! w ! s))"
    if s: "s < length (symbols this)" for s
  proof -
    have s': "s < length (symbols ?t)" using s by (simp add: sy)
    have sy': "symbols this' = data_symbols ?data" and da': "dates this' = data_dates ?data"
      using normalize_matrix_Inr(1,2) [OF n] by auto
    have len: "length m = length (data_dates ?data)" using pivot_matrix_wf [OF m] by (simp add: wf_matrix_def)
    from normalize_matrix_cells [OF n d s'] show ?thesis
      by (simp add: t sy' da' len)
  qed
  with m wf show ?thesis by blast
qed

lemma Math_min_NaN: "NaN \<in> set xs \<Longrightarrow> Math_min xs = NaN"
  unfolding Math_min_def by (induction xs) (auto simp: js_min2_def)

lemma Math_max_NaN: "NaN \<in> set xs \<Longrightarrow> Math_max xs = NaN"
  unfolding Math_max_def by (induction xs) (auto simp: js_max2_def)

lemma scale_NaN_value: "scale NaN mn mx = Fin (1/2)"
  by (simp add: scale_def isNaN_def)

lemma scale_NaN_min: "scale v NaN mx = (if v = NaN then Fin (1/2) else NaN)"
  by (cases v) (simp_all add: scale_def isNaN_def js_eq_def)


lemma concat_nth_const:
  "(\<And>x. x \<in> set xss \<Longrightarrow> length x = n) \<Longrightarrow> i < length xss \<Longrightarrow> j < n
     \<Longrightarrow> concat xss ! (i * n + j) = xss ! i ! j"
proof (induction xss arbitrary: i)
  case Nil
  then show ?case by simp
next
  case (Cons xs xss)
  have len: "length xs = n" using Cons.prems(1) by simp
  show ?case
  proof (cases i)
    case 0
    then show ?thesis using Cons.prems(3) len by (simp add: nth_append)
  next
    case (Suc i')
    then have "concat xss ! (i' * n + j) = xss ! i' ! j"
      using Cons.IH [of i'] Cons.prems by simp
    then show ?thesis using Suc len by (simp add: nth_append)
  qed
qed

lemma label_of_nth:
  assumes "s < sn" and "t < ahead"
  shows "label_of m sn ahead d ! (s * ahead + t)
         = (if js_gt (Close (m ! (d - 1 + (t + 1)) ! s)) (Close (m ! (d - 1) ! s)) then 1 else 0)"
proof -
  let ?xss = "map (\<lambda>s. map (\<lambda>t. if js_gt (Close (m ! (d - 1 + t) ! s)) (Close (m ! (d - 1) ! s))
                                 then 1 else 0 :: nat) [1..<ahead + 1]) [0..<sn]"
  have "concat ?xss ! (s * ahead + t) = ?xss ! s ! t"
    by (rule concat_nth_const) (use assms in auto)
  also have "\<dots> = (if js_gt (Close (m ! (d - 1 + (t + 1)) ! s)) (Close (m ! (d - 1) ! s)) then 1 else 0)"
    using assms by (simp add: nth_map [of t "[1..<ahead + 1]"] del: upt_Suc)
  finally show ?thesis by (simp add: label_of_def)
qed

section \<open>C3: the statistics on a file with a missing cell\<close>

lemma stats_gap:
  "map (min_stats (projr (loadCSV decimal csv_gap new_DataLoader))) [''A'', ''B'']
     = [Some \<lparr>Open = Fin 1, Close = Fin 2\<rparr>, Some \<lparr>Open = NaN, Close = NaN\<rparr>]"
  "map (max_stats (projr (loadCSV decimal csv_gap new_DataLoader))) [''A'', ''B'']
     = [Some \<lparr>Open = Fin 3, Close = Fin 4\<rparr>, Some \<lparr>Open = NaN, Close = NaN\<rparr>]"
  "dataMatrix (projr (loadCSV decimal csv_gap new_DataLoader))
     = [[\<lparr>Open = Fin 0, Close = Fin 0\<rparr>, \<lparr>Open = NaN, Close = NaN\<rparr>],
        [\<lparr>Open = Fin 1, Close = Fin 1\<rparr>, \<lparr>Open = Fin (1/2), Close = Fin (1/2)\<rparr>]]"
  unfolding csv_gap_def by code_simp+

lemma pivot_gap:
  "pivot_matrix (csv_data decimal csv_gap)
     = Inr [[\<lparr>Open = Fin 1, Close = Fin 2\<rparr>, \<lparr>Open = Fin 5, Close = Fin 6\<rparr>],
            [\<lparr>Open = Fin 3, Close = Fin 4\<rparr>, \<lparr>Open = NaN, Close = NaN\<rparr>]]"
  unfolding data_gap by code_simp

lemma stats_zero:
  "stockStats (symbols_of (rawData_of csv_zero)) (dates_of (rawData_of csv_zero))
     (pivot decimal (rawData_of csv_zero) (symbols_of (rawData_of csv_zero)) (dates_of (rawData_of csv_zero)))
     ''A''
   = Some \<lparr>openMin = Fin 2, openMax = Fin 2, closeMin = Fin 5, closeMax = Fin 7\<rparr>"
  unfolding csv_zero_def by code_simp

lemma entries_zero:
  "map (\<lambda>e. (e ''Date'', e ''Symbol'', e ''Open'', e ''Close'')) (rawData_of csv_zero)
   = [(Some ''d1'', Some ''A'', Some ''0'', Some ''5''), (Some ''d2'', Some ''A'', Some ''2'', Some ''7'')]"
  unfolding csv_zero_def by code_simp

text \<open>
  C3 at a failing input. The file has A on d1 and d2 and B on d1 only, so B's only
  observation is open 5, close 6 and its cell on d2 is missing. \<open>Math.min\<close> and
  \<open>Math.max\<close> are applied to the whole column, the NaN of the missing cell included,
  so B's statistics are NaN instead of 5 and 6, and B's observed cell normalizes to NaN.
  In the second loader \<open>filter(Boolean)\<close> drops an observed open of 0 together with the
  missing values: for the opens 0 and 2 it computes the minimum 2.
\<close>

theorem normalization_stats_missing_cell:
  "\<not> isl (loadCSV decimal csv_gap new_DataLoader)
   \<and> pivot_matrix (csv_data decimal csv_gap)
       = Inr [[\<lparr>Open = Fin 1, Close = Fin 2\<rparr>, \<lparr>Open = Fin 5, Close = Fin 6\<rparr>],
              [\<lparr>Open = Fin 3, Close = Fin 4\<rparr>, \<lparr>Open = NaN, Close = NaN\<rparr>]]
   \<and> map (min_stats (projr (loadCSV decimal csv_gap new_DataLoader))) [''A'', ''B'']
       = [Some \<lparr>Open = Fin 1, Close = Fin 2\<rparr>, Some \<lparr>Open = NaN, Close = NaN\<rparr>]
   \<and> map (max_stats (projr (loadCSV decimal csv_gap new_DataLoader))) [''A'', ''B'']
       = [Some \<lparr>Open = Fin 3, Close = Fin 4\<rparr>, Some \<lparr>Open = NaN, Close = NaN\<rparr>]
   \<and> dataMatrix (projr (loadCSV decimal csv_gap new_DataLoader))
       = [[\<lparr>Open = Fin 0, Close = Fin 0\<rparr>, \<lparr>Open = NaN, Close = NaN\<rparr>],
          [\<lparr>Open = Fin 1, Close = Fin 1\<rparr>, \<lparr>Open = Fin (1/2), Close = Fin (1/2)\<rparr>]]
   \<and> map (\<lambda>e. (e ''Date'', e ''Symbol'', e ''Open'', e ''Close'')) (rawData_of csv_zero)
       = [(Some ''d1'', Some ''A'', Some ''0'', Some ''5''), (Some ''d2'', Some ''A'', Some ''2'', Some ''7'')]
   \<and> stockStats (symbols_of (rawData_of csv_zero)) (dates_of (rawData_of csv_zero))
         (pivot decimal (rawData_of csv_zero) (symbols_of (rawData_of csv_zero)) (dates_of (rawData_of csv_zero)))
         ''A''
       = Some \<lparr>openMin = Fin 2, openMax = Fin 2, closeMin = Fin 5, closeMax = Fin 7\<rparr>"
  using loadCSV_gap pivot_gap stats_gap entries_zero stats_zero by simp

section \<open>C5: a constant series\<close>

lemma flat_second_loader:
  "map (\<lambda>d. lookup2 (normalizedData_of decimal (rawData_of csv_flat)) d (Some ''A'')) [Some ''d1'', Some ''d2'']
   = [Some \<lparr>Open = Fin 0, Close = NaN\<rparr>, Some \<lparr>Open = Fin 1, Close = NaN\<rparr>]"
  unfolding csv_flat_def by code_simp

lemma flat_stats_second_loader:
  "stockStats (symbols_of (rawData_of csv_flat)) (dates_of (rawData_of csv_flat))
     (pivot decimal (rawData_of csv_flat) (symbols_of (rawData_of csv_flat)) (dates_of (rawData_of csv_flat)))
     ''A''
   = Some \<lparr>openMin = Fin 1, openMax = Fin 2, closeMin = Fin 7, closeMax = Fin 7\<rparr>"
  unfolding csv_flat_def by code_simp

lemma flat_first_loader:
  "dataMatrix (projr (loadCSV decimal csv_flat new_DataLoader))
     = [[\<lparr>Open = Fin 0, Close = Fin (1/2)\<rparr>], [\<lparr>Open = Fin 1, Close = Fin (1/2)\<rparr>]]"
  unfolding csv_flat_def by code_simp

text \<open>
  C5 at a failing input. Symbol A closes at 7 on both dates, so \<open>closeMax\<close> equals
  \<open>closeMin\<close>. \<open>StockDataLoader.normalizeData\<close> has no guard: it divides
  \<open>7 - 7\<close> by \<open>7 - 7\<close> and stores NaN as the normalized close of both dates.
  \<open>DataLoader\<close>, on the same file, stores 0.5.
\<close>

theorem degenerate_range_second_loader:
  "stockStats (symbols_of (rawData_of csv_flat)) (dates_of (rawData_of csv_flat))
     (pivot decimal (rawData_of csv_flat) (symbols_of (rawData_of csv_flat)) (dates_of (rawData_of csv_flat)))
     ''A''
     = Some \<lparr>openMin = Fin 1, openMax = Fin 2, closeMin = Fin 7, closeMax = Fin 7\<rparr>
   \<and> map (\<lambda>d. lookup2 (normalizedData_of decimal (rawData_of csv_flat)) d (Some ''A'')) [Some ''d1'', Some ''d2'']
     = [Some \<lparr>Open = Fin 0, Close = NaN\<rparr>, Some \<lparr>Open = Fin 1, Close = NaN\<rparr>]
   \<and> dataMatrix (projr (loadCSV decimal csv_flat new_DataLoader))
     = [[\<lparr>Open = Fin 0, Close = Fin (1/2)\<rparr>], [\<lparr>Open = Fin 1, Close = Fin (1/2)\<rparr>]]"
  using flat_stats_second_loader flat_second_loader flat_first_loader by simp


section \<open>C10: labels of a symbol with a constant close\<close>

lemma samples_label_nth:
  assumes "loadCSV num csvText this0 = Inr this" and "0 < windowLen"
  shows "\<exists>xy. samples this windowLen ahead = Inr xy
     \<and> length xy = length (dates this) - windowLen - ahead
     \<and> (\<forall>i < length xy. \<forall>s < length (symbols this). \<forall>t < ahead.
           snd (xy ! i) ! (s * ahead + t)
           = (if js_gt (Close (dataMatrix this ! (windowLen + i + t) ! s))
                       (Close (dataMatrix this ! (windowLen + i - 1) ! s)) then 1 else 0))"
proof -
  let ?m = "dataMatrix this" and ?sn = "length (symbols this)"
  let ?xy = "map (\<lambda>d. (map (window_row ?m ?sn) [d - windowLen..<d], label_of ?m ?sn ahead d))
                 [windowLen..<length (dates this) - ahead]"
  have s: "samples this windowLen ahead = Inr ?xy"
    by (rule samples_wf [OF loadCSV_wf(2) [OF assms(1)] assms(2)])
  have "snd (?xy ! i) ! (s * ahead + t)
           = (if js_gt (Close (?m ! (windowLen + i + t) ! s)) (Close (?m ! (windowLen + i - 1) ! s)) then 1 else 0)"
    if "i < length ?xy" "s < ?sn" "t < ahead" for i s t
  proof -
    have a: "snd (?xy ! i) = label_of ?m ?sn ahead (windowLen + i)" using that(1) by simp
    have b: "windowLen + i - 1 + (t + 1) = windowLen + i + t" using assms(2) by simp
    show ?thesis unfolding a using label_of_nth [OF that(2,3), of ?m "windowLen + i"]
      unfolding b .
  qed
  moreover have "length ?xy = length (dates this) - windowLen - ahead" by simp
  ultimately show ?thesis using s by blast
qed







section \<open>C4: a date and symbol without record\<close>

lemma indexOf_nth_distinct:
  assumes "distinct xs" and "w < length xs"
  shows "nat (indexOf xs (xs ! w)) = w"
proof -
  have m: "xs ! w \<in> set xs" using assms(2) by simp
  from indexOf_mem(2,3) [OF m] assms show ?thesis
    by (simp add: nth_eq_iff_index_eq)
qed

lemma index_map_nth_distinct:
  assumes "distinct syms" and "s < length syms"
  shows "index_map syms (syms ! s) = Some s"
proof -
  have "syms ! s \<in> set syms" using assms(2) by simp
  from index_map_mem [OF this] obtain k where k: "index_map syms (syms ! s) = Some k" ..
  from index_map_SomeD [OF k] have "k < length syms" and "syms ! k = syms ! s" by auto
  with assms have "k = s" using nth_eq_iff_index_eq [of syms k s] by blast
  with k show ?thesis by simp
qed

lemma pivot_matrix_absent:
  assumes "pivot_matrix data = Inr m0"
    and "w < length (data_dates data)" and "s < length (data_symbols data)"
    and "\<forall>r \<in> set data. \<not> (r_date r = data_dates data ! w \<and> r_symbol r = data_symbols data ! s)"
  shows "m0 ! w ! s = \<lparr>Open = NaN, Close = NaN\<rparr>"
proof -
  let ?ds = "data_dates data" and ?sy = "data_symbols data"
  have all: "\<forall>x \<in> set data. r_date x \<in> set ?ds \<and> r_symbol x \<in> set ?sy"
    by (auto simp: data_dates_def data_symbols_def)
  have d: "?ds ! w \<in> set ?ds" using assms(2) by simp
  have k: "index_map ?sy (?sy ! s) = Some s"
    by (rule index_map_nth_distinct [OF distinct_data_symbols assms(3)])
  have e: "filter (\<lambda>x. r_date x = ?ds ! w \<and> r_symbol x = ?sy ! s) data = []"
    using assms(4) by (auto simp: filter_empty_conv)
  have i: "nat (indexOf ?ds (?ds ! w)) = w"
    by (rule indexOf_nth_distinct [OF distinct_data_dates assms(2)])
  from foldE_pivot_cell [OF wf_matrix_replicate all d k assms(1) [unfolded pivot_matrix_def]]
  show ?thesis unfolding e i using assms(2,3) by simp
qed

lemma closeArrs_NaN:
  assumes "w < length m" and "Close (m ! w ! s) = NaN"
  shows "NaN \<in> set (closeArrs m s)"
proof -
  have "Close (m ! w ! s) \<in> set (closeArrs m s)"
    unfolding closeArrs_def using assms(1) by (metis (no_types, lifting) image_eqI nth_mem set_map)
  then show ?thesis using assms(2) by simp
qed

lemma js_gt_half_NaN:
  "a \<in> {Fin (1/2), NaN} \<Longrightarrow> b \<in> {Fin (1/2), NaN} \<Longrightarrow> \<not> js_gt a b"
  by auto

lemma fold_upd_key_total:
  assumes "inj_on k (set xs)" and "x0 \<in> set xs"
  shows "fold (\<lambda>x f. f(k x \<mapsto> g x)) xs f0 (k x0) = Some (g x0)"
proof -
  have inj: "inj_on k (insert x0 (set xs))" using assms by (simp add: insert_absorb)
  from fold_upd_key [OF inj, of "\<lambda>x. Some (g x)" f0] assms(2) show ?thesis by simp
qed





lemma missing_cell_first_loader:
  assumes l: "loadCSV num csvText this0 = Inr this"
    and w: "w < length (dates this)" and s: "s < length (symbols this)"
    and ab: "\<forall>r \<in> set (csv_data num csvText).
               \<not> (r_date r = dates this ! w \<and> r_symbol r = symbols this ! s)"
  shows "\<exists>m0. pivot_matrix (csv_data num csvText) = Inr m0 \<and> m0 ! w ! s = \<lparr>Open = NaN, Close = NaN\<rparr>"
    and "dataMatrix this ! w ! s = \<lparr>Open = Fin (1/2), Close = Fin (1/2)\<rparr>"
    and "\<forall>v < length (dates this). Close (dataMatrix this ! v ! s) \<in> {Fin (1/2), NaN}"
proof -
  have sy: "symbols this = data_symbols (csv_data num csvText)"
    and da: "dates this = data_dates (csv_data num csvText)"
    using loadCSV_wf(3,4) [OF l] by auto
  from loadCSV_cells [OF l] s obtain m0 where
    m0: "pivot_matrix (csv_data num csvText) = Inr m0"
    and wf: "wf_matrix m0 (length (dates this)) (length (symbols this))"
    and c: "\<forall>v < length (dates this). dataMatrix this ! v ! s = norm_cell m0 s (m0 ! v ! s)"
    by blast
  have nan: "m0 ! w ! s = \<lparr>Open = NaN, Close = NaN\<rparr>"
    using pivot_matrix_absent [OF m0] w s ab unfolding sy da by blast
  show "\<exists>m0. pivot_matrix (csv_data num csvText) = Inr m0 \<and> m0 ! w ! s = \<lparr>Open = NaN, Close = NaN\<rparr>"
    using m0 nan by blast
  show "dataMatrix this ! w ! s = \<lparr>Open = Fin (1/2), Close = Fin (1/2)\<rparr>"
    using c w by (simp add: nan norm_cell_def scale_NaN_value)
  have "w < length m0" using wf w by (simp add: wf_matrix_def)
  then have "NaN \<in> set (closeArrs m0 s)" by (rule closeArrs_NaN) (simp add: nan)
  then have mn: "Math_min (closeArrs m0 s) = NaN" by (rule Math_min_NaN)
  show "\<forall>v < length (dates this). Close (dataMatrix this ! v ! s) \<in> {Fin (1/2), NaN}"
    using c by (simp add: norm_cell_def mn scale_NaN_min)
qed


lemma rows_gap3: "csv_rows csv_gap3 =
    [[''Date'', ''Symbol'', ''Open'', ''Close''], [''d1'', ''A'', ''1'', ''2''],
     [''d2'', ''A'', ''3'', ''4''], [''d3'', ''A'', ''5'', ''6''],
     [''d1'', ''B'', ''5'', ''6''], [''d3'', ''B'', ''7'', ''8'']]"
  unfolding csv_gap3_def by code_simp

lemma data_gap3: "csv_data decimal csv_gap3 =
    [\<lparr>r_date = ''d1'', r_symbol = ''A'', r_open = Fin 1, r_close = Fin 2\<rparr>,
     \<lparr>r_date = ''d2'', r_symbol = ''A'', r_open = Fin 3, r_close = Fin 4\<rparr>,
     \<lparr>r_date = ''d3'', r_symbol = ''A'', r_open = Fin 5, r_close = Fin 6\<rparr>,
     \<lparr>r_date = ''d1'', r_symbol = ''B'', r_open = Fin 5, r_close = Fin 6\<rparr>,
     \<lparr>r_date = ''d3'', r_symbol = ''B'', r_open = Fin 7, r_close = Fin 8\<rparr>]"
  unfolding csv_data_def rows_gap3 by code_simp

lemma axes_gap3:
  "data_dates (csv_data decimal csv_gap3) = [''d1'', ''d2'', ''d3'']"
  "data_symbols (csv_data decimal csv_gap3) = [''A'', ''B'']"
  unfolding data_gap3 by code_simp+

lemma loadCSV_gap3: "\<not> isl (loadCSV decimal csv_gap3 new_DataLoader)"
proof -
  have "list_all (\<lambda>h. h \<in> set (hd (csv_rows csv_gap3))) required_columns"
    unfolding rows_gap3 required_columns_def by simp
  from loadCSV_defined [OF this] show ?thesis by (metis sum.disc(2))
qed






section \<open>C2: the layout of the label vector\<close>

lemma currentClosePrices_lookup:
  assumes "inj_on key (set syms)" and "sy \<in> set syms"
  shows "currentClosePrices nd syms cd (key sy) = Some (or_zero (map_option Close (lookup2 nd cd sy)))"
  unfolding currentClosePrices_def by (rule fold_upd_key_total [OF assms])

lemma target_nth:
  assumes "t < 3" and "j < length syms"
  shows "target nd syms ds i ! (t * length syms + j)
         = target_entry nd (currentClosePrices nd syms (js_nth ds (i + 11))) (js_nth ds (i + 12 + t)) (syms ! j)"
proof -
  let ?ccp = "currentClosePrices nd syms (js_nth ds (i + 11))"
  let ?xss = "map (\<lambda>offset. map (target_entry nd ?ccp (js_nth ds (i + 11 + offset))) syms) [1..<4]"
  have t: "target nd syms ds i = concat ?xss"
    by (simp add: target_def Let_def sequenceLength_def predictionHorizon_def add.commute del: upt_Suc)
  have a: "concat ?xss ! (t * length syms + j) = ?xss ! t ! j"
    by (rule concat_nth_const) (use assms in auto)
  have "[1..<4] ! t = 1 + t" using assms(1) by (simp del: upt_Suc)
  then have b: "?xss ! t ! j = target_entry nd ?ccp (js_nth ds (i + 11 + (1 + t))) (syms ! j)"
    using assms by (simp add: nth_map [of t "[1..<4]"] del: upt_Suc)
  have c: "i + 11 + (1 + t) = i + 12 + t" by simp
  show ?thesis unfolding t a b c ..
qed

lemma target_entry_cases:
  assumes "inj_on key (set syms)" and "sy \<in> set syms"
  shows "lookup2 nd fd sy = None \<Longrightarrow> target_entry nd (currentClosePrices nd syms cd) fd sy = 0"
    and "lookup2 nd fd sy = Some q \<Longrightarrow> lookup2 nd cd sy = Some c \<Longrightarrow> Close c \<noteq> NaN
         \<Longrightarrow> target_entry nd (currentClosePrices nd syms cd) fd sy
             = (if js_gt (Close q) (Close c) then 1 else 0)"
proof -
  show "target_entry nd (currentClosePrices nd syms cd) fd sy = 0" if "lookup2 nd fd sy = None"
    using that by (simp add: target_entry_def)
  show "target_entry nd (currentClosePrices nd syms cd) fd sy = (if js_gt (Close q) (Close c) then 1 else 0)"
    if "lookup2 nd fd sy = Some q" "lookup2 nd cd sy = Some c" "Close c \<noteq> NaN"
  proof -
    have "or_zero (Some (Close c)) = Close c"
      using that(3) by (simp add: or_zero_def truthy_def)
    then show ?thesis
      using that by (simp add: target_entry_def currentClosePrices_lookup [OF assms])
  qed
qed

lemma createSequences_target:
  assumes "i < length ds - 12 - 3"
  shows "snd (createSequences nd syms ds) ! i = target nd syms ds i"
  using assms by (simp add: createSequences_def Let_def sequenceLength_def predictionHorizon_def)

lemma accuracyByStock_hits_nth:
  assumes "length y_pred \<le> length y_true"
  shows "\<exists>hs. accuracyByStock_hits y_pred y_true s = Inr hs \<and> length hs = length y_pred * 3
     \<and> (\<forall>i < length y_pred. \<forall>t < 3.
           hs ! (i * 3 + t)
           = (js_at (y_true ! i) (int (s * 3 + t))
              = Some (if js_ge_half (js_at (y_pred ! i) (int (s * 3 + t))) then 1 else 0)))"
proof -
  let ?row = "\<lambda>i. map (\<lambda>t. js_at (y_true ! i) (int (s * 3 + t))
              = Some (if js_ge_half (js_at (y_pred ! i) (int (s * 3 + t))) then 1 else 0)) [0..<3]"
  let ?xss = "map ?row [0..<length y_pred]"
  have "mapE (\<lambda>i. if length y_true \<le> i then Inl TypeError
                   else Inr (map (\<lambda>t. let idx = s * 3 + t;
                                           gt = js_at (y_true ! i) (int idx);
                                           pr = (if js_ge_half (js_at (y_pred ! i) (int idx)) then 1 else 0)
                                       in gt = Some pr) [0..<3]))
             [0..<length y_pred] = Inr ?xss"
    by (rule mapE_Inr) (use assms in \<open>simp add: Let_def del: upt_Suc\<close>)
  then have h: "accuracyByStock_hits y_pred y_true s = Inr (concat ?xss)"
    by (simp add: accuracyByStock_hits_def Let_def del: upt_Suc)
  have len: "\<And>x. x \<in> set ?xss \<Longrightarrow> length x = 3" by auto
  have "length (concat ?xss) = length ?xss * 3"
    by (rule length_concat_const) (rule len)
  then have l: "length (concat ?xss) = length y_pred * 3"
    by (simp only: length_map length_upt diff_zero)
  have n: "concat ?xss ! (i * 3 + t)
           = (js_at (y_true ! i) (int (s * 3 + t))
              = Some (if js_ge_half (js_at (y_pred ! i) (int (s * 3 + t))) then 1 else 0))"
    if "i < length y_pred" "t < 3" for i t
  proof -
    have "concat ?xss ! (i * 3 + t) = ?xss ! i ! t"
      by (rule concat_nth_const [OF len]) (use that in auto)
    also have "\<dots> = ?row i ! t" using that(1) by simp
    also have "\<dots> = (js_at (y_true ! i) (int (s * 3 + t))
              = Some (if js_ge_half (js_at (y_pred ! i) (int (s * 3 + t))) then 1 else 0))"
      using that(2) by (simp add: nth_map [of t "[0..<3]"] del: upt_Suc)
    finally show ?thesis .
  qed
  from h l n show ?thesis by blast
qed

lemma calculateStockAccuracies_hits_nth:
  assumes "length predArray \<le> length trueArray"
  shows "\<exists>hs. calculateStockAccuracies_hits predArray trueArray stocksCount stockIdx = Inr hs
     \<and> length hs = length predArray * 3
     \<and> (\<forall>i < length predArray. \<forall>day < 3.
           hs ! (i * 3 + day)
           = (Some (if js_gt_half (js_at (predArray ! i) (int (stockIdx + day * stocksCount))) then 1 else 0)
              = js_at (trueArray ! i) (int (stockIdx + day * stocksCount))))"
proof -
  let ?row = "\<lambda>i. map (\<lambda>day. Some (if js_gt_half (js_at (predArray ! i) (int (stockIdx + day * stocksCount))) then 1 else 0)
              = js_at (trueArray ! i) (int (stockIdx + day * stocksCount))) [0..<3]"
  let ?xss = "map ?row [0..<length predArray]"
  have "mapE (\<lambda>sampleIdx. if length trueArray \<le> sampleIdx then Inl TypeError
                         else Inr (map (\<lambda>day. let predIdx = stockIdx + day * stocksCount;
                                                   prediction = (if js_gt_half (js_at (predArray ! sampleIdx) (int predIdx)) then 1 else 0);
                                                   trueVal = js_at (trueArray ! sampleIdx) (int predIdx)
                                               in Some prediction = trueVal) [0..<3]))
             [0..<length predArray] = Inr ?xss"
    by (rule mapE_Inr) (use assms in \<open>simp add: Let_def del: upt_Suc\<close>)
  then have h: "calculateStockAccuracies_hits predArray trueArray stocksCount stockIdx = Inr (concat ?xss)"
    by (simp add: calculateStockAccuracies_hits_def Let_def del: upt_Suc)
  have len: "\<And>x. x \<in> set ?xss \<Longrightarrow> length x = 3" by auto
  have "length (concat ?xss) = length ?xss * 3"
    by (rule length_concat_const) (rule len)
  then have l: "length (concat ?xss) = length predArray * 3"
    by (simp only: length_map length_upt diff_zero)
  have n: "concat ?xss ! (i * 3 + day)
           = (Some (if js_gt_half (js_at (predArray ! i) (int (stockIdx + day * stocksCount))) then 1 else 0)
              = js_at (trueArray ! i) (int (stockIdx + day * stocksCount)))"
    if "i < length predArray" "day < 3" for i day
  proof -
    have "concat ?xss ! (i * 3 + day) = ?xss ! i ! day"
      by (rule concat_nth_const [OF len]) (use that in auto)
    also have "\<dots> = ?row i ! day" using that(1) by simp
    also have "\<dots> = (Some (if js_gt_half (js_at (predArray ! i) (int (stockIdx + day * stocksCount))) then 1 else 0)
              = js_at (trueArray ! i) (int (stockIdx + day * stocksCount)))"
      using that(2) by (simp add: nth_map [of day "[0..<3]"] del: upt_Suc)
    finally show ?thesis .
  qed
  from h l n show ?thesis by blast
qed

text \<open>
  C2, as the code has it. \<open>DataLoader.buildDataset\<close> lays the label vector out
  symbol-major: the entry at \<open>s * ahead + (t - 1)\<close> belongs to symbol \<open>s\<close> and offset
  \<open>t\<close> in \<open>1..ahead\<close>, and it is 1 iff the normalized close at \<open>d - 1 + t\<close> is
  strictly greater than the normalized close at \<open>d - 1\<close>, else 0; it is 0 when the file
  has no record for the symbol on one of these two dates. Its consumer
  \<open>GRUModel.accuracyByStock\<close> reads entry \<open>s * 3 + t\<close> for stock \<open>s\<close> and step \<open>t\<close>.
  \<open>StockDataLoader.createSequences\<close> lays the label vector out day-major: the entry
  at \<open>(t - 1) * |symbols| + j\<close> belongs to offset \<open>t\<close> in \<open>1..3\<close> and symbol \<open>j\<close>; it is
  0 when the future cell is missing and, when both cells are there and the current
  close is a number, 1 iff the future close is strictly greater than the current close.
  Its consumer \<open>GRUStockPredictor.calculateStockAccuracies\<close> reads entry
  \<open>stockIdx + day * stocksCount\<close>.
\<close>

theorem label_layout:
  assumes "loadCSV num csvText this0 = Inr this" and "0 < windowLen"
    and "length y_pred \<le> length y_true"
    and "inj_on key (set syms)"
    and "length predArray \<le> length trueArray"
  shows "(\<exists>xy. samples this windowLen ahead = Inr xy
           \<and> length xy = length (dates this) - windowLen - ahead
           \<and> (\<forall>i < length xy. \<forall>s < length (symbols this). \<forall>t < ahead.
                 snd (xy ! i) ! (s * ahead + t)
                 = (if js_gt (Close (dataMatrix this ! (windowLen + i + t) ! s))
                             (Close (dataMatrix this ! (windowLen + i - 1) ! s)) then 1 else 0))
           \<and> (\<forall>i < length xy. \<forall>s < length (symbols this). \<forall>t < ahead.
                 no_record (csv_data num csvText) (dates this ! (windowLen + i - 1)) (symbols this ! s)
                 \<or> no_record (csv_data num csvText) (dates this ! (windowLen + i + t)) (symbols this ! s)
                 \<longrightarrow> snd (xy ! i) ! (s * ahead + t) = 0))
     \<and> (\<exists>hs. accuracyByStock_hits y_pred y_true stock = Inr hs \<and> length hs = length y_pred * 3
           \<and> (\<forall>i < length y_pred. \<forall>t < 3.
                 hs ! (i * 3 + t)
                 = (js_at (y_true ! i) (int (stock * 3 + t))
                    = Some (if js_ge_half (js_at (y_pred ! i) (int (stock * 3 + t))) then 1 else 0))))
     \<and> (\<forall>i < length ds - 12 - 3. \<forall>t < 3. \<forall>j < length syms.
           (lookup2 nd (js_nth ds (i + 12 + t)) (syms ! j) = None
              \<longrightarrow> snd (createSequences nd syms ds) ! i ! (t * length syms + j) = 0)
           \<and> (\<forall>q c. lookup2 nd (js_nth ds (i + 12 + t)) (syms ! j) = Some q
                    \<and> lookup2 nd (js_nth ds (i + 11)) (syms ! j) = Some c \<and> Close c \<noteq> NaN
              \<longrightarrow> snd (createSequences nd syms ds) ! i ! (t * length syms + j)
                    = (if js_gt (Close q) (Close c) then 1 else 0)))
     \<and> (\<exists>hs. calculateStockAccuracies_hits predArray trueArray stocksCount stockIdx = Inr hs
           \<and> length hs = length predArray * 3
           \<and> (\<forall>i < length predArray. \<forall>day < 3.
                 hs ! (i * 3 + day)
                 = (Some (if js_gt_half (js_at (predArray ! i) (int (stockIdx + day * stocksCount))) then 1 else 0)
                    = js_at (trueArray ! i) (int (stockIdx + day * stocksCount)))))"
proof -
  from samples_label_nth [OF assms(1,2), of ahead] obtain xy where
    xy: "samples this windowLen ahead = Inr xy"
    and len: "length xy = length (dates this) - windowLen - ahead"
    and lab: "\<forall>i < length xy. \<forall>s < length (symbols this). \<forall>t < ahead.
           snd (xy ! i) ! (s * ahead + t)
           = (if js_gt (Close (dataMatrix this ! (windowLen + i + t) ! s))
                       (Close (dataMatrix this ! (windowLen + i - 1) ! s)) then 1 else 0)"
    by blast
  have miss: "snd (xy ! i) ! (s * ahead + t) = 0"
    if s: "s < length (symbols this)" and i: "i < length xy" and t: "t < ahead"
      and ab: "no_record (csv_data num csvText) (dates this ! (windowLen + i - 1)) (symbols this ! s)
               \<or> no_record (csv_data num csvText) (dates this ! (windowLen + i + t)) (symbols this ! s)"
    for s i t
  proof -
    have r: "windowLen + i + t < length (dates this)" "windowLen + i - 1 < length (dates this)"
      using i t len by auto
    from ab obtain w where w: "w < length (dates this)"
      and nr: "\<forall>r \<in> set (csv_data num csvText).
                 \<not> (r_date r = dates this ! w \<and> r_symbol r = symbols this ! s)"
      using r unfolding no_record_def list_all_iff by blast
    note A = missing_cell_first_loader(3) [OF assms(1) w s nr]
    with r have "\<not> js_gt (Close (dataMatrix this ! (windowLen + i + t) ! s))
                           (Close (dataMatrix this ! (windowLen + i - 1) ! s))"
      by (intro js_gt_half_NaN) blast+
    then show ?thesis using lab i s t by simp
  qed
  have A: "\<exists>xy. samples this windowLen ahead = Inr xy
           \<and> length xy = length (dates this) - windowLen - ahead
           \<and> (\<forall>i < length xy. \<forall>s < length (symbols this). \<forall>t < ahead.
                 snd (xy ! i) ! (s * ahead + t)
                 = (if js_gt (Close (dataMatrix this ! (windowLen + i + t) ! s))
                             (Close (dataMatrix this ! (windowLen + i - 1) ! s)) then 1 else 0))
           \<and> (\<forall>i < length xy. \<forall>s < length (symbols this). \<forall>t < ahead.
                 no_record (csv_data num csvText) (dates this ! (windowLen + i - 1)) (symbols this ! s)
                 \<or> no_record (csv_data num csvText) (dates this ! (windowLen + i + t)) (symbols this ! s)
                 \<longrightarrow> snd (xy ! i) ! (s * ahead + t) = 0)"
    using xy len lab miss by blast
  have B: "(lookup2 nd (js_nth ds (i + 12 + t)) (syms ! j) = None
              \<longrightarrow> snd (createSequences nd syms ds) ! i ! (t * length syms + j) = 0)
           \<and> (\<forall>q c. lookup2 nd (js_nth ds (i + 12 + t)) (syms ! j) = Some q
                    \<and> lookup2 nd (js_nth ds (i + 11)) (syms ! j) = Some c \<and> Close c \<noteq> NaN
              \<longrightarrow> snd (createSequences nd syms ds) ! i ! (t * length syms + j)
                    = (if js_gt (Close q) (Close c) then 1 else 0))"
    if i: "i < length ds - 12 - 3" and t: "t < 3" and j: "j < length syms" for i t j
  proof -
    have m: "syms ! j \<in> set syms" using j by simp
    have e: "snd (createSequences nd syms ds) ! i ! (t * length syms + j)
             = target_entry nd (currentClosePrices nd syms (js_nth ds (i + 11)))
                 (js_nth ds (i + 12 + t)) (syms ! j)"
      unfolding createSequences_target [OF i] by (rule target_nth [OF t j])
    show ?thesis unfolding e
      using target_entry_cases [OF assms(4) m, where nd = nd and fd = "js_nth ds (i + 12 + t)"
          and cd = "js_nth ds (i + 11)"]
      by blast
  qed
  from A accuracyByStock_hits_nth [OF assms(3), of stock] B
    calculateStockAccuracies_hits_nth [OF assms(5), of stocksCount stockIdx]
  show ?thesis by blast
qed

lemma demo_axes:
  "length ds16 = 16" "js_nth ds16 11 = Some ''dL''" "js_nth ds16 12 = Some ''dM''"
  "js_nth ds16 13 = Some ''dN''" "js_nth ds16 14 = Some ''dO''"
  unfolding ds16_def by code_simp+

lemma demo_cells:
  "lookup2 nd_demo (Some ''dN'') (Some ''B'') = None"
  "lookup2 nd_demo (Some ''dM'') (Some ''A'') = Some \<lparr>Open = Fin (1/2), Close = Fin 1\<rparr>"
  "lookup2 nd_demo (Some ''dL'') (Some ''A'') = Some \<lparr>Open = Fin (1/2), Close = Fin (1/2)\<rparr>"
  unfolding nd_demo_def by code_simp+

lemma demo_targets: "snd (createSequences nd_demo syms2 ds16) = [[1, 0, 1, 0, 1, 0]]"
  unfolding nd_demo_def syms2_def ds16_def by code_simp

lemma demo_hits:
  "accuracyByStock_hits preds_demo truth_demo 0 = Inr [True, False, True]"
  "calculateStockAccuracies_hits preds_demo truth_demo 2 0 = Inr [True, True, True]"
  unfolding preds_demo_def truth_demo_def by code_simp+

lemma absent_gap3:
  "list_all (\<lambda>r. (r_date r, r_symbol r) \<noteq> (''d2'', ''B'')) (csv_data decimal csv_gap3)"
  unfolding data_gap3 by simp

theorem label_layout_witness:
  "\<exists>this xy. loadCSV decimal csv_gap3 new_DataLoader = Inr this
     \<and> dates this = [''d1'', ''d2'', ''d3''] \<and> symbols this = [''A'', ''B'']
     \<and> list_all (\<lambda>r. (r_date r, r_symbol r) \<noteq> (''d2'', ''B'')) (csv_data decimal csv_gap3)
     \<and> samples this 1 1 = Inr xy \<and> length xy = 1
     \<and> snd (xy ! 0) ! 0 = (if js_gt (Close (dataMatrix this ! 1 ! 0)) (Close (dataMatrix this ! 0 ! 0))
                            then 1 else 0)
     \<and> snd (xy ! 0) ! 1 = 0
     \<and> length preds_demo \<le> length truth_demo
     \<and> (\<exists>hs. accuracyByStock_hits preds_demo truth_demo 0 = Inr hs \<and> length hs = 3)
     \<and> inj_on key (set syms2)
     \<and> lookup2 nd_demo (js_nth ds16 13) (syms2 ! 1) = None
     \<and> snd (createSequences nd_demo syms2 ds16) ! 0 ! 3 = 0
     \<and> lookup2 nd_demo (js_nth ds16 12) (syms2 ! 0) = Some \<lparr>Open = Fin (1/2), Close = Fin 1\<rparr>
     \<and> lookup2 nd_demo (js_nth ds16 11) (syms2 ! 0) = Some \<lparr>Open = Fin (1/2), Close = Fin (1/2)\<rparr>
     \<and> snd (createSequences nd_demo syms2 ds16) ! 0 ! 0 = 1
     \<and> (\<exists>hs. calculateStockAccuracies_hits preds_demo truth_demo 2 0 = Inr hs \<and> length hs = 3)"
proof -
  let ?t = "projr (loadCSV decimal csv_gap3 new_DataLoader)"
  have l: "loadCSV decimal csv_gap3 new_DataLoader = Inr ?t" using loadCSV_gap3 by simp
  have da: "dates ?t = [''d1'', ''d2'', ''d3'']" and sy: "symbols ?t = [''A'', ''B'']"
    using loadCSV_wf(3,4) [OF l] by (simp_all add: axes_gap3)
  have wl: "0 < (1::nat)" by simp
  have p: "length preds_demo \<le> length truth_demo" by (simp add: preds_demo_def truth_demo_def)
  have k: "inj_on key (set syms2)" by (simp add: syms2_def key_def)
  note T = label_layout [OF l wl p k p, of 1 0 ds16 nd_demo 2 0]
  from T obtain xy where x: "samples ?t 1 1 = Inr xy" "length xy = length (dates ?t) - 1 - 1"
      "\<forall>i < length xy. \<forall>s < length (symbols ?t). \<forall>t < 1.
         snd (xy ! i) ! (s * 1 + t)
         = (if js_gt (Close (dataMatrix ?t ! (1 + i + t) ! s))
                     (Close (dataMatrix ?t ! (1 + i - 1) ! s)) then 1 else 0)"
      "\<forall>i < length xy. \<forall>s < length (symbols ?t). \<forall>t < 1.
         no_record (csv_data decimal csv_gap3) (dates ?t ! (1 + i - 1)) (symbols ?t ! s)
         \<or> no_record (csv_data decimal csv_gap3) (dates ?t ! (1 + i + t)) (symbols ?t ! s)
         \<longrightarrow> snd (xy ! i) ! (s * 1 + t) = 0"
    by (elim conjE exE) blast
  have n: "length xy = 1" using x(2) by (simp add: da)
  have a0: "snd (xy ! 0) ! 0 = (if js_gt (Close (dataMatrix ?t ! 1 ! 0)) (Close (dataMatrix ?t ! 0 ! 0))
                            then 1 else 0)"
    using x(3) [rule_format, of 0 0 0] n by (simp add: sy)
  have ab: "no_record (csv_data decimal csv_gap3) (dates ?t ! 1) (symbols ?t ! 1)"
    using absent_gap3 by (simp add: da sy no_record_def list_all_iff)
  have a1: "snd (xy ! 0) ! 1 = 0"
    using x(4) [rule_format, of 0 1 0] ab n by (simp add: da sy)
  from T have h1: "\<exists>hs. accuracyByStock_hits preds_demo truth_demo 0 = Inr hs \<and> length hs = 3"
    and h2: "\<exists>hs. calculateStockAccuracies_hits preds_demo truth_demo 2 0 = Inr hs \<and> length hs = 3"
    by (simp_all add: demo_hits)
  from T have B: "\<forall>i < length ds16 - 12 - 3. \<forall>t < 3. \<forall>j < length syms2.
           (lookup2 nd_demo (js_nth ds16 (i + 12 + t)) (syms2 ! j) = None
              \<longrightarrow> snd (createSequences nd_demo syms2 ds16) ! i ! (t * length syms2 + j) = 0)
           \<and> (\<forall>q c. lookup2 nd_demo (js_nth ds16 (i + 12 + t)) (syms2 ! j) = Some q
                    \<and> lookup2 nd_demo (js_nth ds16 (i + 11)) (syms2 ! j) = Some c \<and> Close c \<noteq> NaN
              \<longrightarrow> snd (createSequences nd_demo syms2 ds16) ! i ! (t * length syms2 + j)
                    = (if js_gt (Close q) (Close c) then 1 else 0))"
    by (elim conjE)
  have c1: "lookup2 nd_demo (js_nth ds16 13) (syms2 ! 1) = None"
    and c2: "lookup2 nd_demo (js_nth ds16 12) (syms2 ! 0) = Some \<lparr>Open = Fin (1/2), Close = Fin 1\<rparr>"
    and c3: "lookup2 nd_demo (js_nth ds16 11) (syms2 ! 0) = Some \<lparr>Open = Fin (1/2), Close = Fin (1/2)\<rparr>"
    by (simp_all add: demo_axes demo_cells syms2_def)
  have b1: "snd (createSequences nd_demo syms2 ds16) ! 0 ! 3 = 0"
    using B [rule_format, of 0 1 1, THEN conjunct1] c1 by (simp add: demo_axes syms2_def numeral_3_eq_3)
  have b2: "snd (createSequences nd_demo syms2 ds16) ! 0 ! 0 = 1"
    using B [rule_format, of 0 0 0, THEN conjunct2, rule_format,
        of "\<lparr>Open = Fin (1/2), Close = Fin 1\<rparr>" "\<lparr>Open = Fin (1/2), Close = Fin (1/2)\<rparr>"] c2 c3
    by (simp add: demo_axes syms2_def)
  from l da sy absent_gap3 x(1) n a0 a1 p h1 k c1 b1 c2 c3 b2 h2 show ?thesis by blast
qed

text \<open>
  The sentence of the specification does not hold of the code. With every label 1 and the predictions above 0.5 exactly at
  the entries 0, 2, 4, \<open>calculateStockAccuracies\<close> counts three hits for stock 0 of 2:
  it reads the entries 0, 2, 4 (day-major), where \<open>accuracyByStock\<close> reads 0, 1, 2.
  And on normalized data where the close of A is higher on each of the three future
  dates and the close of B never is, \<open>createSequences\<close> gives the labels
  1, 0, 1, 0, 1, 0; the symbol-major vector would be 1, 1, 1, 0, 0, 0.
\<close>

theorem label_layout_counterexample:
  "calculateStockAccuracies_hits preds_demo truth_demo 2 0 = Inr [True, True, True]
   \<and> accuracyByStock_hits preds_demo truth_demo 0 = Inr [True, False, True]
   \<and> snd (createSequences nd_demo syms2 ds16) = [[1, 0, 1, 0, 1, 0]]"
  using demo_hits demo_targets by blast

section \<open>C9: normalizing a normalized matrix\<close>















end
